theory Spec2Isabelle
  imports Complex_Main "HOL-Library.Multiset" "HOL-Library.Product_Lexorder"
    "HOL-Library.AList" "HOL-Library.List_Lexorder" "HOL-Library.Char_ord"
begin

section \<open>Values of the competition model\<close>

text \<open>
  The server (\<^verbatim>\<open>server.js\<close>) keeps one object \<^verbatim>\<open>meetData\<close> and rebuilds its parts from
  the rows of the upstream document store. JavaScript numbers are modelled by the
  finite values, as \<^typ>\<open>real\<close>; where the source guards against \<^verbatim>\<open>NaN\<close>
  (\<^verbatim>\<open>parseFloat(x) || 0\<close>, \<^verbatim>\<open>!bodyweight\<close>, \<^verbatim>\<open>isNaN\<close>) the value that may be
  \<^verbatim>\<open>NaN\<close> is a \<^typ>\<open>real option\<close> with \<^const>\<open>None\<close> for \<^verbatim>\<open>NaN\<close>. A field that may be
  \<^verbatim>\<open>null\<close> or \<^verbatim>\<open>undefined\<close> is an option. An object used as a dictionary is an
  association list in the order \<^verbatim>\<open>Object.values\<close> enumerates it (insertion order: the
  keys used here are never array indices); properties inherited from
  \<^verbatim>\<open>Object.prototype\<close> are not keys of a dictionary.
\<close>

text \<open>A discipline object \<^verbatim>\<open>{ 1: 0, 2: 0, 3: 0, best: 0 }\<close>.\<close>

record lift =
  slot1 :: real
  slot2 :: real
  slot3 :: real
  best :: real

text \<open>The lifter object built by \<^verbatim>\<open>processLifters\<close> (lines 240-261).\<close>

record lifter =
  lifter_id :: string
  lifter_name :: string
  sex :: string
  weightClass :: string
  bodyweight :: real
  division :: string
  divisionId :: "string option"
  squat :: lift
  bench :: lift
  deadlift :: lift
  total :: real
  place :: "nat option"
  records :: "(int \<times> real) list"
  squatRackHeight :: string
  benchRackHeight :: string
  team :: string
  lot :: "real option"
  lifter_platformId :: "string option"
  session :: "real option"
  flight :: string

type_synonym lifters = "(string \<times> lifter) list"

section \<open>Scoring: \<^verbatim>\<open>calculateBestLifts\<close> and \<open>calculatePlacings\<close>\<close>

text \<open>\<^verbatim>\<open>x || 0\<close> on a number: \<^verbatim>\<open>x\<close> when it is truthy (not zero), else \<^verbatim>\<open>0\<close>.\<close>

definition or_zero :: "real \<Rightarrow> real" where
  "or_zero x = (if x \<noteq> 0 then x else 0)"

text \<open>
  Lines 329-335: the three slots filtered by \<^verbatim>\<open>w > 0\<close>, then
  \<^verbatim>\<open>attempts.length > 0 ? Math.max(...attempts) : 0\<close>.
\<close>

definition best_lift :: "lift \<Rightarrow> real" where
  "best_lift d =
     (case filter (\<lambda>w. w > 0) [slot1 d, slot2 d, slot3 d] of
        [] \<Rightarrow> 0
      | w # ws \<Rightarrow> fold max ws w)"

text \<open>The body of the outer \<^verbatim>\<open>forEach\<close> of \<^verbatim>\<open>calculateBestLifts\<close> for one lifter.\<close>

definition score_lifter :: "lifter \<Rightarrow> lifter" where
  "score_lifter l =
     (let l1 = l\<lparr>squat := (squat l)\<lparr>best := best_lift (squat l)\<rparr>\<rparr>;
          l2 = l1\<lparr>bench := (bench l1)\<lparr>best := best_lift (bench l1)\<rparr>\<rparr>;
          l3 = l2\<lparr>deadlift := (deadlift l2)\<lparr>best := best_lift (deadlift l2)\<rparr>\<rparr>
      in l3\<lparr>total := or_zero (best (squat l3)) + or_zero (best (bench l3))
                        + or_zero (best (deadlift l3))\<rparr>)"

definition calculateBestLifts :: "lifters \<Rightarrow> lifters" where
  "calculateBestLifts ls = map (\<lambda>(k, l). (k, score_lifter l)) ls"

text \<open>
  \<^verbatim>\<open>calculatePlacings\<close> works on \<^verbatim>\<open>Object.values(lifters)\<close>, an array of references to
  the lifter objects. The model keeps the objects in a list (the store) and a reference
  is the position of its object there. The group key is the template string of line 353;
  \<^verbatim>\<open>null\<close> prints as \<^verbatim>\<open>null\<close>.
\<close>

definition template_str :: "string option \<Rightarrow> string" where
  "template_str v = (case v of None \<Rightarrow> ''null'' | Some s \<Rightarrow> s)"

definition group_key :: "lifter \<Rightarrow> string" where
  "group_key l = template_str (divisionId l) @ ''_'' @ sex l @ ''_'' @ weightClass l"

type_synonym groups = "(string \<times> nat list) list"

text \<open>Lines 354-357: create the group's array when the key is new, then push.\<close>

fun push_to_group :: "string \<Rightarrow> nat \<Rightarrow> groups \<Rightarrow> groups" where
  "push_to_group k r [] = [(k, [r])]"
| "push_to_group k r ((k', rs) # gs) =
     (if k' = k then (k', rs @ [r]) # gs else (k', rs) # push_to_group k r gs)"

definition build_groups :: "lifter list \<Rightarrow> groups" where
  "build_groups st =
     fold (\<lambda>r gs. push_to_group (group_key (st ! r)) r gs) [0..<length st] []"

text \<open>The comparator of lines 362-368, as the number it returns.\<close>

definition compare_lifters :: "lifter \<Rightarrow> lifter \<Rightarrow> real" where
  "compare_lifters a b =
     (if total b \<noteq> total a then total b - total a else bodyweight a - bodyweight b)"

text \<open>
  \<^verbatim>\<open>Array.prototype.sort\<close> with a comparator is stable. It is modelled by insertion
  sort: an element goes before the first element it does not compare greater than, and
  the elements are inserted from the last to the first, which keeps equal elements in
  their order.
\<close>

fun insert_by :: "('a \<Rightarrow> 'a \<Rightarrow> real) \<Rightarrow> 'a \<Rightarrow> 'a list \<Rightarrow> 'a list" where
  "insert_by c x [] = [x]"
| "insert_by c x (y # ys) = (if c x y \<le> 0 then x # y # ys else y # insert_by c x ys)"

definition sort_by :: "('a \<Rightarrow> 'a \<Rightarrow> real) \<Rightarrow> 'a list \<Rightarrow> 'a list" where
  "sort_by c xs = foldr (insert_by c) xs []"

text \<open>Line 373: \<^verbatim>\<open>lifter.place = lifter.total > 0 ? index + 1 : null\<close>.\<close>

definition placed :: "nat \<Rightarrow> lifter \<Rightarrow> lifter" where
  "placed index l = l\<lparr>place := (if total l > 0 then Some (index + 1) else None)\<rparr>"

text \<open>Lines 371-374: the \<^verbatim>\<open>forEach\<close> over the sorted group, with its running index.\<close>

fun assign_places :: "nat list \<Rightarrow> nat \<Rightarrow> lifter list \<Rightarrow> lifter list" where
  "assign_places [] index st = st"
| "assign_places (r # rs) index st =
     assign_places rs (index + 1) (st[r := placed index (st ! r)])"

definition rank_group :: "nat list \<Rightarrow> lifter list \<Rightarrow> lifter list" where
  "rank_group g st =
     assign_places (sort_by (\<lambda>a b. compare_lifters (st ! a) (st ! b)) g) 0 st"

definition place_lifters :: "lifter list \<Rightarrow> lifter list" where
  "place_lifters st = fold (\<lambda>(k, g). rank_group g) (build_groups st) st"

definition calculatePlacings :: "lifters \<Rightarrow> lifters" where
  "calculatePlacings ls = zip (map fst ls) (place_lifters (map snd ls))"

text \<open>One scoring pass, lines 404-405.\<close>

definition scoring_pass :: "lifters \<Rightarrow> lifters" where
  "scoring_pass ls = calculatePlacings (calculateBestLifts ls)"

section \<open>Documents of the upstream store\<close>

text \<open>
  The functions of the JavaScript runtime that the server calls on strings and numbers
  are not code of the server. Those whose result the model needs as a value are
  parameters: \<^verbatim>\<open>parseFloat\<close> and \<^verbatim>\<open>parseInt\<close> on a string (\<^const>\<open>None\<close> for
  \<^verbatim>\<open>NaN\<close>), \<^verbatim>\<open>Number.prototype.toString\<close>, and \<^verbatim>\<open>String.prototype.localeCompare\<close>
  (the number it returns).
\<close>

record runtime =
  parseFloat :: "string \<Rightarrow> real option"
  parseInt :: "string \<Rightarrow> int option"
  number_toString :: "real \<Rightarrow> string"
  localeCompare :: "string \<Rightarrow> string \<Rightarrow> real"

text \<open>The exceptions the modelled code can raise.\<close>

datatype error = TypeError

text \<open>
  \<^verbatim>\<open>doc.clockState\<close>: \<^verbatim>\<open>null\<close>, an object with its \<^verbatim>\<open>remaining\<close> field, or a value
  that is not an object.
\<close>

datatype clock_state = Clock_null | Clock_object "real option" | Clock_other

record division_ref =
  ref_divisionId :: "string option"

text \<open>
  A document of a row, with the fields the server reads and the types the upstream
  gives them: identifiers, names and labels are strings, weights and lengths are
  numbers. A field that is absent or \<^verbatim>\<open>null\<close> is \<^const>\<open>None\<close>. The field
  \<^verbatim>\<open>doc.x\<close> is \<open>doc_x\<close>; \<^verbatim>\<open>doc._id\<close> is \<open>doc_id\<close>. For \<^verbatim>\<open>clockState\<close> the
  outer \<^const>\<open>None\<close> is \<^verbatim>\<open>undefined\<close> only, since line 153 tells it from \<^verbatim>\<open>null\<close>.
\<close>

record doc =
  doc_id :: "string option"
  doc_name :: "string option"
  doc_date :: "string option"
  doc_federation :: "string option"
  doc_units :: "string option"
  doc_plates :: "string option"
  doc_dateFormat :: "string option"
  doc_type :: "string option"
  doc_clockState :: "clock_state option"
  doc_clockTimerLength :: "real option"
  doc_barAndCollarsWeight :: "real option"
  doc_currentAttemptId :: "string option"
  doc_platformId :: "string option"
  doc_position :: "string option"
  doc_decision :: "string option"
  doc_cards :: "string option"
  doc_birthDate :: "string option"
  doc_gender :: "string option"
  doc_divisions :: "division_ref list option"
  doc_bodyWeight :: "real option"
  doc_squatRackHeight :: "string option"
  doc_benchRackHeight :: "string option"
  doc_team :: "string option"
  doc_lot :: "real option"
  doc_session :: "real option"
  doc_flight :: "string option"
  doc_lifterId :: "string option"
  doc_liftName :: "string option"
  doc_attemptNumber :: "string option"
  doc_weight :: "real option"
  doc_result :: "string option"
  doc_decisions :: "string option"
  doc_createDate :: "string option"

text \<open>A row of \<^verbatim>\<open>data.rows\<close> is given by its \<^verbatim>\<open>doc\<close>, which may be absent or \<^verbatim>\<open>null\<close>.\<close>

type_synonym row = "doc option"

text \<open>Truthiness of a string and of a number that may be absent.\<close>

definition truthy_str :: "string option \<Rightarrow> bool" where
  "truthy_str v = (case v of None \<Rightarrow> False | Some s \<Rightarrow> s \<noteq> [])"

definition truthy_num :: "real option \<Rightarrow> bool" where
  "truthy_num v = (case v of None \<Rightarrow> False | Some x \<Rightarrow> x \<noteq> 0)"

definition startsWith :: "string \<Rightarrow> string \<Rightarrow> bool" where
  "startsWith s p = (take (length p) s = p)"

text \<open>The condition \<^verbatim>\<open>doc?._id?.startsWith(p)\<close> for a document that is there.\<close>

definition id_startsWith :: "doc \<Rightarrow> string \<Rightarrow> bool" where
  "id_startsWith d p = (case doc_id d of None \<Rightarrow> False | Some s \<Rightarrow> startsWith s p)"

text \<open>
  \<^verbatim>\<open>toLowerCase\<close> and \<^verbatim>\<open>toUpperCase\<close> on the letters A to Z. The server compares their
  results with words of these letters only, and no other character maps to one of the
  letters of these words.
\<close>

definition lower_char :: "char \<Rightarrow> char" where
  "lower_char c =
     (let n = (of_char c :: nat) in if 65 \<le> n \<and> n \<le> 90 then char_of (n + 32) else c)"

definition upper_char :: "char \<Rightarrow> char" where
  "upper_char c =
     (let n = (of_char c :: nat) in if 97 \<le> n \<and> n \<le> 122 then char_of (n - 32) else c)"

definition toLowerCase :: "string \<Rightarrow> string" where
  "toLowerCase s = map lower_char s"

definition toUpperCase :: "string \<Rightarrow> string" where
  "toUpperCase s = map upper_char s"

text \<open>\<^verbatim>\<open>obj[k] = v\<close> on a dictionary: a key that is there keeps its position.\<close>

definition dict_set :: "string \<Rightarrow> 'v \<Rightarrow> (string \<times> 'v) list \<Rightarrow> (string \<times> 'v) list" where
  "dict_set k v m = AList.update k v m"

section \<open>Weight classes: \<^verbatim>\<open>mapWeightClasses\<close>\<close>

text \<open>
  \<^verbatim>\<open>federations.json\<close> is not among the sources. Of a federation's entry the server reads
  \<^verbatim>\<open>weightClasses\<close>, an object from a sex to an object of class labels; the model
  keeps \<^verbatim>\<open>Object.values\<close> of the latter, in its order.
\<close>

record fed_config =
  weightClasses :: "(string \<times> string list) list"

type_synonym fed_configs = "(string \<times> fed_config) list"

record thresholds =
  MALE :: "real list"
  FEMALE :: "real list"

text \<open>\<^verbatim>\<open>v.replace("+", "")\<close> removes the first \<^verbatim>\<open>+\<close>.\<close>

definition strip_plus :: "string \<Rightarrow> string" where
  "strip_plus v = remove1 (CHR ''+'') v"

text \<open>Lines 95-100 for one sex; \<^verbatim>\<open>classConfig[sex] || {}\<close> is the empty list of labels.\<close>

definition parse_classes :: "runtime \<Rightarrow> fed_config \<Rightarrow> string \<Rightarrow> real list" where
  "parse_classes rt config s =
     (let classes = (case map_of (weightClasses config) s of None \<Rightarrow> [] | Some c \<Rightarrow> c)
      in sort_by (\<lambda>a b. a - b)
           (List.map_filter (\<lambda>v. parseFloat rt (strip_plus v)) classes))"

text \<open>
  Lines 88-103. With no entry for the federation and none for \<^verbatim>\<open>IPF\<close>,
  \<^verbatim>\<open>config.weightClasses\<close> reads a property of \<^verbatim>\<open>undefined\<close>.
\<close>

definition mapWeightClasses :: "runtime \<Rightarrow> fed_configs \<Rightarrow> string option \<Rightarrow> error + thresholds" where
  "mapWeightClasses rt configs fed =
     (case (case map_of configs (template_str fed) of
              Some c \<Rightarrow> Some c | None \<Rightarrow> map_of configs ''IPF'') of
        None \<Rightarrow> Inl TypeError
      | Some config \<Rightarrow>
          Inr \<lparr>MALE = parse_classes rt config ''MALE'',
               FEMALE = parse_classes rt config ''FEMALE''\<rparr>)"

text \<open>
  \<^verbatim>\<open>thresholds[sex.toUpperCase()] || thresholds["MALE"]\<close>: the object has the two keys
  \<^verbatim>\<open>MALE\<close> and \<^verbatim>\<open>FEMALE\<close>, and an array is truthy also when it is empty.
\<close>

definition select_table :: "thresholds \<Rightarrow> string \<Rightarrow> real list" where
  "select_table th s =
     (if toUpperCase s = ''MALE'' then MALE th
      else if toUpperCase s = ''FEMALE'' then FEMALE th
      else MALE th)"

text \<open>The loop of lines 111-113.\<close>

fun first_class :: "real \<Rightarrow> real list \<Rightarrow> real option" where
  "first_class bw [] = None"
| "first_class bw (w # ws) = (if bw \<le> w then Some w else first_class bw ws)"

text \<open>
  The returned function \<^verbatim>\<open>getWeightClass\<close>, lines 105-117. An argument that is
  \<^verbatim>\<open>null\<close> or \<^verbatim>\<open>undefined\<close>, and a bodyweight that is \<^verbatim>\<open>NaN\<close>, is \<^const>\<open>None\<close>.
\<close>

definition getWeightClass ::
    "runtime \<Rightarrow> thresholds \<Rightarrow> string option \<Rightarrow> real option \<Rightarrow> string" where
  "getWeightClass rt th s bw =
     (if \<not> truthy_num bw \<or> \<not> truthy_str s then ''0''
      else case (s, bw) of
        (Some sx, Some b) \<Rightarrow>
          (let upper = select_table th sx in
           if length upper = 0 then ''0''
           else case first_class b upper of
                  Some w \<Rightarrow> number_toString rt w
                | None \<Rightarrow> number_toString rt (last upper) @ ''+'')
      | _ \<Rightarrow> ''0'')"

section \<open>Projection of the rows\<close>

text \<open>\<^verbatim>\<open>processDivisions\<close>, lines 204-218: the division dictionary holds the whole document.\<close>

definition division_step :: "row \<Rightarrow> (string \<times> doc) list \<Rightarrow> (string \<times> doc) list" where
  "division_step r divs =
     (case r of
        None \<Rightarrow> divs
      | Some d \<Rightarrow>
          (case doc_id d of
             None \<Rightarrow> divs
           | Some i \<Rightarrow>
               if startsWith i ''d'' \<and> truthy_str (doc_name d) then dict_set i d divs
               else divs))"

definition processDivisions :: "row list \<Rightarrow> (string \<times> doc) list" where
  "processDivisions rows = fold division_step rows []"

text \<open>
  \<^verbatim>\<open>processMeetInfo\<close>, lines 120-146. The object starts as \<^verbatim>\<open>{}\<close>: every field
  \<^const>\<open>None\<close>. A property set to \<^verbatim>\<open>undefined\<close> is a \<^const>\<open>None\<close> field too, as it
  is left out of the message sent to the viewers.
\<close>

record meet_info =
  info_name :: "string option"
  info_date :: "string option"
  info_federation :: "string option"
  info_units :: "string option"
  info_plates :: "string option"
  info_dateFormat :: "string option"
  info_type :: "string option"
  extraStuff :: "(string \<times> doc) list option"

definition is_meet_row :: "row \<Rightarrow> bool" where
  "is_meet_row r = (case r of None \<Rightarrow> False | Some d \<Rightarrow> id_startsWith d ''m'')"

definition extra_docs :: "row list \<Rightarrow> (string \<times> doc) list" where
  "extra_docs rows =
     List.map_filter
       (\<lambda>r. case r of
          None \<Rightarrow> None
        | Some d \<Rightarrow>
            (case doc_id d of
               None \<Rightarrow> None
             | Some i \<Rightarrow> if startsWith i ''e'' then Some (i, d) else None))
       rows"

definition processMeetInfo :: "row list \<Rightarrow> meet_info" where
  "processMeetInfo rows =
     (let empty_info = \<lparr>info_name = None, info_date = None, info_federation = None,
            info_units = None, info_plates = None, info_dateFormat = None,
            info_type = None, extraStuff = None\<rparr>;
          meetInfo =
            (case find is_meet_row rows of
               Some (Some d) \<Rightarrow>
                 \<lparr>info_name = doc_name d, info_date = doc_date d,
                  info_federation = doc_federation d,
                  info_units = (if truthy_str (doc_units d) then doc_units d else Some ''KG''),
                  info_plates = doc_plates d, info_dateFormat = doc_dateFormat d,
                  info_type = doc_type d, extraStuff = None\<rparr>
             | _ \<Rightarrow> empty_info);
          extraDocs = extra_docs rows
      in if length extraDocs > 0 then meetInfo\<lparr>extraStuff := Some extraDocs\<rparr> else meetInfo)"

text \<open>\<^verbatim>\<open>processPlatforms\<close>, lines 148-172.\<close>

record platform =
  platform_id :: string
  platform_name :: string
  timerRemaining :: real
  clockTimerLength :: "real option"
  barAndCollarsWeight :: "real option"
  currentAttemptId :: "string option"
  lights :: "bool list"

definition timer_of :: "doc \<Rightarrow> real" where
  "timer_of d =
     (let configured =
            (case doc_clockTimerLength d of
               Some t \<Rightarrow> if t \<noteq> 0 then t / 1000 else 60
             | None \<Rightarrow> 60)
      in case doc_clockState d of
           Some (Clock_object (Some r)) \<Rightarrow> if r \<noteq> 0 then r / 1000 else configured
         | _ \<Rightarrow> configured)"

definition platform_step :: "row \<Rightarrow> (string \<times> platform) list \<Rightarrow> (string \<times> platform) list" where
  "platform_step r ps =
     (case r of
        None \<Rightarrow> ps
      | Some d \<Rightarrow>
          (case (doc_id d, doc_name d) of
             (Some i, Some n) \<Rightarrow>
               if startsWith i ''p'' \<and> n \<noteq> [] \<and> doc_clockState d \<noteq> None
               then dict_set i
                      \<lparr>platform_id = i, platform_name = n, timerRemaining = timer_of d,
                       clockTimerLength = doc_clockTimerLength d,
                       barAndCollarsWeight = doc_barAndCollarsWeight d,
                       currentAttemptId = doc_currentAttemptId d, lights = []\<rparr> ps
               else ps
           | _ \<Rightarrow> ps))"

definition processPlatforms :: "row list \<Rightarrow> (string \<times> platform) list" where
  "processPlatforms rows = fold platform_step rows []"

text \<open>\<^verbatim>\<open>processReferees\<close>, lines 174-191.\<close>

record referee =
  referee_id :: string
  platformId :: string
  position :: string
  decision :: "string option"
  cards :: "string option"

definition referee_step :: "row \<Rightarrow> (string \<times> referee) list \<Rightarrow> (string \<times> referee) list" where
  "referee_step r rs =
     (case r of
        None \<Rightarrow> rs
      | Some d \<Rightarrow>
          (case (doc_id d, doc_platformId d, doc_position d) of
             (Some i, Some p, Some pos) \<Rightarrow>
               if startsWith i ''r'' \<and> p \<noteq> [] \<and> pos \<noteq> []
               then dict_set i
                      \<lparr>referee_id = i, platformId = p, position = pos,
                       decision = doc_decision d, cards = doc_cards d\<rparr> rs
               else rs
           | _ \<Rightarrow> rs))"

definition processReferees :: "row list \<Rightarrow> (string \<times> referee) list" where
  "processReferees rows = fold referee_step rows []"

text \<open>
  \<^verbatim>\<open>processRefereeLights\<close>, lines 193-202: for each platform the referees of the
  platform, sorted with \<^verbatim>\<open>localeCompare\<close> on the position, then mapped to
  \<^verbatim>\<open>r.decision === "good"\<close>.
\<close>

definition platformReferees ::
    "runtime \<Rightarrow> (string \<times> referee) list \<Rightarrow> platform \<Rightarrow> referee list" where
  "platformReferees rt refs p =
     sort_by (\<lambda>a b. localeCompare rt (position a) (position b))
       (filter (\<lambda>r. platformId r = platform_id p) (map snd refs))"

definition processRefereeLights ::
    "runtime \<Rightarrow> (string \<times> platform) list \<Rightarrow> (string \<times> referee) list
      \<Rightarrow> (string \<times> platform) list" where
  "processRefereeLights rt plats refs =
     map (\<lambda>(k, p). (k, p\<lparr>lights := map (\<lambda>r. decision r = Some ''good'')
                                      (platformReferees rt refs p)\<rparr>)) plats"

text \<open>
  \<^verbatim>\<open>processLifters\<close>, lines 220-266. \<^verbatim>\<open>parseFloat\<close> of a number is the number, and
  \<^verbatim>\<open>doc.bodyWeight > 0\<close> is false for an absent weight.
\<close>

definition new_lifter ::
    "runtime \<Rightarrow> thresholds \<Rightarrow> (string \<times> doc) list \<Rightarrow> string \<Rightarrow> string \<Rightarrow> string \<Rightarrow> doc
      \<Rightarrow> lifter" where
  "new_lifter rt th divs i n g d =
     (let divisionInfo =
            (case doc_divisions d of
               Some (x # xs) \<Rightarrow> Some x
             | _ \<Rightarrow> None);
          divId =
            (case divisionInfo of
               None \<Rightarrow> None
             | Some x \<Rightarrow> if truthy_str (ref_divisionId x) then ref_divisionId x else None);
          divisionName =
            (case divId of
               None \<Rightarrow> ''''
             | Some k \<Rightarrow>
                 (case map_of divs k of
                    None \<Rightarrow> ''''
                  | Some dv \<Rightarrow> (case doc_name dv of None \<Rightarrow> '''' | Some nm \<Rightarrow> nm)));
          bw = (case doc_bodyWeight d of None \<Rightarrow> 0 | Some w \<Rightarrow> if w > 0 then w else 0)
      in \<lparr>lifter_id = i, lifter_name = n, sex = g,
          weightClass = getWeightClass rt th (Some g) (Some bw),
          bodyweight = bw, division = divisionName, divisionId = divId,
          squat = \<lparr>slot1 = 0, slot2 = 0, slot3 = 0, best = 0\<rparr>,
          bench = \<lparr>slot1 = 0, slot2 = 0, slot3 = 0, best = 0\<rparr>,
          deadlift = \<lparr>slot1 = 0, slot2 = 0, slot3 = 0, best = 0\<rparr>,
          total = 0, place = None, records = [],
          squatRackHeight = (case doc_squatRackHeight d of None \<Rightarrow> '''' | Some s \<Rightarrow> s),
          benchRackHeight = (case doc_benchRackHeight d of None \<Rightarrow> '''' | Some s \<Rightarrow> s),
          team = (case doc_team d of None \<Rightarrow> '''' | Some s \<Rightarrow> s),
          lot = (if truthy_num (doc_lot d) then doc_lot d else None),
          lifter_platformId =
            (if truthy_str (doc_platformId d) then doc_platformId d else None),
          session = (if truthy_num (doc_session d) then doc_session d else None),
          flight = (case doc_flight d of None \<Rightarrow> '''' | Some s \<Rightarrow> s)\<rparr>)"

definition lifter_step ::
    "runtime \<Rightarrow> thresholds \<Rightarrow> (string \<times> doc) list \<Rightarrow> row \<Rightarrow> lifters \<Rightarrow> lifters" where
  "lifter_step rt th divs r ls =
     (case r of
        None \<Rightarrow> ls
      | Some d \<Rightarrow>
          (case (doc_id d, doc_name d, doc_gender d) of
             (Some i, Some n, Some g) \<Rightarrow>
               if startsWith i ''l'' \<and> n \<noteq> [] \<and> truthy_str (doc_birthDate d) \<and> g \<noteq> []
               then dict_set i (new_lifter rt th divs i n g d) ls
               else ls
           | _ \<Rightarrow> ls))"

definition processLifters ::
    "runtime \<Rightarrow> fed_configs \<Rightarrow> row list \<Rightarrow> string option \<Rightarrow> (string \<times> doc) list
      \<Rightarrow> error + lifters" where
  "processLifters rt configs rows fed divs =
     (case mapWeightClasses rt configs fed of
        Inl e \<Rightarrow> Inl e
      | Inr th \<Rightarrow> Inr (fold (lifter_step rt th divs) rows []))"

section \<open>Linking the attempts: \<^verbatim>\<open>processAttempts\<close>\<close>

text \<open>The attempt object of lines 282-291.\<close>

record attempt =
  attempt_id :: string
  lifterId :: string
  liftName :: string
  attemptNumber :: string
  weight :: "real option"
  result :: "string option"
  decisions :: "string option"
  createDate :: "string option"

datatype discipline = Squat | Bench | Deadlift

text \<open>
  What \<^verbatim>\<open>lifter[liftType]\<close> finds for a lower-case \<^verbatim>\<open>liftType\<close>: one of the three
  discipline objects, the \<^verbatim>\<open>records\<close> object, a truthy string or number, or nothing
  truthy. A property whose name has a capital letter cannot be named by a lower-case
  string.
\<close>

datatype property = Lift_object discipline | Records_object | Primitive | Not_truthy

definition primitive :: "bool \<Rightarrow> property" where
  "primitive is_truthy = (if is_truthy then Primitive else Not_truthy)"

definition lifter_property :: "lifter \<Rightarrow> string \<Rightarrow> property" where
  "lifter_property l p =
     (if p = ''squat'' then Lift_object Squat
      else if p = ''bench'' then Lift_object Bench
      else if p = ''deadlift'' then Lift_object Deadlift
      else if p = ''records'' then Records_object
      else if p = ''id'' then primitive (lifter_id l \<noteq> [])
      else if p = ''name'' then primitive (lifter_name l \<noteq> [])
      else if p = ''sex'' then primitive (sex l \<noteq> [])
      else if p = ''bodyweight'' then primitive (bodyweight l \<noteq> 0)
      else if p = ''division'' then primitive (division l \<noteq> [])
      else if p = ''total'' then primitive (total l \<noteq> 0)
      else if p = ''place'' then primitive (case place l of None \<Rightarrow> False | Some n \<Rightarrow> n \<noteq> 0)
      else if p = ''team'' then primitive (team l \<noteq> [])
      else if p = ''lot'' then primitive (truthy_num (lot l))
      else if p = ''session'' then primitive (truthy_num (session l))
      else if p = ''flight'' then primitive (flight l \<noteq> [])
      else Not_truthy)"

text \<open>
  \<^verbatim>\<open>obj[attemptNum] = v\<close> on the \<^verbatim>\<open>records\<close> object: its keys are array indices, which
  an object enumerates in ascending order.
\<close>

fun index_set :: "int \<Rightarrow> real \<Rightarrow> (int \<times> real) list \<Rightarrow> (int \<times> real) list" where
  "index_set n v [] = [(n, v)]"
| "index_set n v ((k, x) # m) =
     (if n = k then (n, v) # m
      else if n < k then (n, v) # (k, x) # m
      else (k, x) # index_set n v m)"

text \<open>\<^verbatim>\<open>obj[attemptNum] = v\<close> on a discipline object, for \<^verbatim>\<open>attemptNum\<close> from 1 to 3.\<close>

definition set_slot :: "int \<Rightarrow> real \<Rightarrow> lift \<Rightarrow> lift" where
  "set_slot n v d =
     (if n = 1 then d\<lparr>slot1 := v\<rparr>
      else if n = 2 then d\<lparr>slot2 := v\<rparr>
      else if n = 3 then d\<lparr>slot3 := v\<rparr>
      else d)"

definition get_slot :: "int \<Rightarrow> lift \<Rightarrow> real option" where
  "get_slot n d =
     (if n = 1 then Some (slot1 d)
      else if n = 2 then Some (slot2 d)
      else if n = 3 then Some (slot3 d)
      else None)"

definition discipline_of :: "discipline \<Rightarrow> lifter \<Rightarrow> lift" where
  "discipline_of k l = (case k of Squat \<Rightarrow> squat l | Bench \<Rightarrow> bench l | Deadlift \<Rightarrow> deadlift l)"

definition write_slot :: "discipline \<Rightarrow> int \<Rightarrow> real \<Rightarrow> lifter \<Rightarrow> lifter" where
  "write_slot k n v l =
     (case k of
        Squat \<Rightarrow> l\<lparr>squat := set_slot n v (squat l)\<rparr>
      | Bench \<Rightarrow> l\<lparr>bench := set_slot n v (bench l)\<rparr>
      | Deadlift \<Rightarrow> l\<lparr>deadlift := set_slot n v (deadlift l)\<rparr>)"

text \<open>
  Lines 306-316: the number stored for an attempt. \<^verbatim>\<open>parseFloat\<close> of a number is the
  number, \<^verbatim>\<open>parseFloat(undefined)\<close> is \<^verbatim>\<open>NaN\<close>, and \<^verbatim>\<open>NaN || 0\<close> is 0.
\<close>

definition declared_weight :: "doc \<Rightarrow> real" where
  "declared_weight d = (case doc_weight d of None \<Rightarrow> 0 | Some w \<Rightarrow> or_zero w)"

definition isSuccess :: "doc \<Rightarrow> bool" where
  "isSuccess d = (case doc_result d of None \<Rightarrow> False | Some r \<Rightarrow> toLowerCase r = ''good'')"

definition slot_value :: "doc \<Rightarrow> real" where
  "slot_value d =
     (if isSuccess d then declared_weight d
      else if doc_result d = None then 0
      else - \<bar>declared_weight d\<bar>)"

text \<open>Lines 297-302.\<close>

definition liftType :: "string \<Rightarrow> string" where
  "liftType name = (let t = toLowerCase name in if t = ''dead'' then ''deadlift'' else t)"

text \<open>
  Lines 293-318 for an attempt document \<open>d\<close> with lifter id \<open>lid\<close>, lift name \<open>lname\<close>
  and attempt number \<open>an\<close>. The server is an ES module, so its code is strict: the
  assignment \<^verbatim>\<open>lifter[liftType][attemptNum] = v\<close> to a property of a string or of a
  number raises a \<^verbatim>\<open>TypeError\<close>.
\<close>

definition link_attempt ::
    "runtime \<Rightarrow> doc \<Rightarrow> string \<Rightarrow> string \<Rightarrow> string \<Rightarrow> lifters \<Rightarrow> error + lifters" where
  "link_attempt rt d lid lname an ls =
     (case map_of ls lid of
        None \<Rightarrow> Inr ls
      | Some l \<Rightarrow>
          (case parseInt rt an of
             None \<Rightarrow> Inr ls
           | Some attemptNum \<Rightarrow>
               if lifter_property l (liftType lname) \<noteq> Not_truthy
                  \<and> attemptNum \<ge> 1 \<and> attemptNum \<le> 3
               then (case lifter_property l (liftType lname) of
                       Lift_object k \<Rightarrow>
                         Inr (dict_set lid (write_slot k attemptNum (slot_value d) l) ls)
                     | Records_object \<Rightarrow>
                         Inr (dict_set lid
                                (l\<lparr>records := index_set attemptNum (slot_value d) (records l)\<rparr>) ls)
                     | Primitive \<Rightarrow> Inl TypeError
                     | Not_truthy \<Rightarrow> Inr ls)
               else Inr ls))"

text \<open>
  The body of the \<^verbatim>\<open>forEach\<close>, lines 271-320, on the pair of the attempt dictionary
  and the lifter dictionary. Line 276 reads \<^verbatim>\<open>doc._id\<close> with no guard: a row without a
  document raises a \<^verbatim>\<open>TypeError\<close>.
\<close>

definition attempt_step ::
    "runtime \<Rightarrow> row \<Rightarrow> (string \<times> attempt) list \<times> lifters
      \<Rightarrow> error + (string \<times> attempt) list \<times> lifters" where
  "attempt_step rt r st =
     (case r of
        None \<Rightarrow> Inl TypeError
      | Some d \<Rightarrow>
          (case (doc_id d, doc_lifterId d, doc_liftName d, doc_attemptNumber d) of
             (Some i, Some lid, Some lname, Some an) \<Rightarrow>
               if i \<noteq> [] \<and> startsWith i ''a'' \<and> lid \<noteq> [] \<and> lname \<noteq> [] \<and> an \<noteq> []
               then (case link_attempt rt d lid lname an (snd st) of
                       Inl e \<Rightarrow> Inl e
                     | Inr ls \<Rightarrow>
                         Inr (dict_set i
                                \<lparr>attempt_id = i, lifterId = lid, liftName = lname,
                                 attemptNumber = an, weight = doc_weight d,
                                 result = doc_result d, decisions = doc_decisions d,
                                 createDate = doc_createDate d\<rparr> (fst st), ls))
               else Inr st
           | _ \<Rightarrow> Inr st))"

text \<open>
  The loop. The lifter objects are changed in place, so when a row raises, the
  changes made for the rows before it stay: the result keeps the lifters reached.
\<close>

fun attempts_loop ::
    "runtime \<Rightarrow> row list \<Rightarrow> (string \<times> attempt) list \<times> lifters
      \<Rightarrow> error option \<times> (string \<times> attempt) list \<times> lifters" where
  "attempts_loop rt [] st = (None, st)"
| "attempts_loop rt (r # rows) st =
     (case attempt_step rt r st of
        Inl e \<Rightarrow> (Some e, st)
      | Inr st' \<Rightarrow> attempts_loop rt rows st')"

definition processAttempts ::
    "runtime \<Rightarrow> row list \<Rightarrow> lifters \<Rightarrow> error option \<times> (string \<times> attempt) list \<times> lifters" where
  "processAttempts rt rows ls = attempts_loop rt rows ([], ls)"

section \<open>The snapshot, the update cycle and the messages\<close>

text \<open>The object \<^verbatim>\<open>meetData\<close>, lines 21-31.\<close>

record meetData =
  lifters :: lifters
  attempts :: "(string \<times> attempt) list"
  divisions :: "(string \<times> doc) list"
  platforms :: "(string \<times> platform) list"
  referees :: "(string \<times> referee) list"
  meetInfo :: "meet_info option"
  federation :: "string option"
  meetId :: "string option"
  lastUpdate :: "string option"

definition initial_meetData :: meetData where
  "initial_meetData =
     \<lparr>lifters = [], attempts = [], divisions = [], platforms = [], referees = [],
      meetInfo = None, federation = None, meetId = None, lastUpdate = None\<rparr>"

text \<open>
  What the request of \<^verbatim>\<open>fetchData\<close> ends with: no response, a response whose status is
  not a success, a body that is not JSON, the JSON value \<^verbatim>\<open>null\<close>, a JSON value that
  is not an object, or an object with its \<^verbatim>\<open>rows\<close> (absent: \<^const>\<open>None\<close>).
\<close>

datatype response =
  Network_error | Status_not_ok nat | Invalid_json | Json_null | Json_scalar
  | Json_object "row list option"

text \<open>
  \<^verbatim>\<open>fetchData\<close>, lines 35-85, returns \<^verbatim>\<open>null\<close> when anything throws inside its
  \<^verbatim>\<open>try\<close>; \<^verbatim>\<open>data.rows?.length\<close> throws for \<^verbatim>\<open>null\<close>. The two counts it logs do not
  change the result. The value of the model is \<^verbatim>\<open>data.rows\<close> when \<^verbatim>\<open>data\<close> and
  \<^verbatim>\<open>data.rows\<close> are truthy, which is what line 386 asks of the result.
\<close>

definition fetchData :: "response \<Rightarrow> row list option" where
  "fetchData r =
     (case r of
        Network_error \<Rightarrow> None
      | Status_not_ok n \<Rightarrow> None
      | Invalid_json \<Rightarrow> None
      | Json_null \<Rightarrow> None
      | Json_scalar \<Rightarrow> None
      | Json_object rows \<Rightarrow> rows)"

text \<open>The fields of a message's \<^verbatim>\<open>data\<close>, in the order \<^verbatim>\<open>JSON.stringify\<close> writes them.\<close>

datatype part =
  Lifters_part lifters
  | Attempts_part "(string \<times> attempt) list"
  | Divisions_part "(string \<times> doc) list"
  | Platforms_part "(string \<times> platform) list"
  | Referees_part "(string \<times> referee) list"
  | MeetInfo_part "meet_info option"
  | Text_part "string option"
  | Codes_part "string list"

record message =
  msg_type :: string
  msg_data :: "(string \<times> part) list"

text \<open>The message of \<^verbatim>\<open>broadcastUpdate\<close>, lines 424-436.\<close>

definition update_message :: "meetData \<Rightarrow> message" where
  "update_message s =
     \<lparr>msg_type = ''update'',
      msg_data =
        [(''lifters'', Lifters_part (lifters s)),
         (''attempts'', Attempts_part (attempts s)),
         (''divisions'', Divisions_part (divisions s)),
         (''platforms'', Platforms_part (platforms s)),
         (''referees'', Referees_part (referees s)),
         (''meetInfo'', MeetInfo_part (meetInfo s)),
         (''federation'', Text_part (federation s)),
         (''lastUpdate'', Text_part (lastUpdate s))]\<rparr>"


text \<open>How a call of \<^verbatim>\<open>updateMeetData\<close> ends.\<close>

datatype outcome = No_meet_id | No_data | Raised error | Broadcast message

text \<open>
  \<^verbatim>\<open>updateMeetData\<close>, lines 378-418, on the snapshot \<open>s\<close>, with the response of the
  store and the time stamp of line 410. An exception leaves the function at once; the
  assignments made before it stay.
\<close>

definition updateMeetData ::
    "runtime \<Rightarrow> fed_configs \<Rightarrow> response \<Rightarrow> string \<Rightarrow> meetData \<Rightarrow> meetData \<times> outcome" where
  "updateMeetData rt configs resp now s =
     (if \<not> truthy_str (meetId s) then (s, No_meet_id)
      else case fetchData resp of
        None \<Rightarrow> (s, No_data)
      | Some rows \<Rightarrow>
          (let s1 = s\<lparr>divisions := processDivisions rows\<rparr>;
               s2 = s1\<lparr>meetInfo := Some (processMeetInfo rows)\<rparr>;
               s3 = s2\<lparr>platforms := processPlatforms rows\<rparr>;
               s4 = s3\<lparr>referees := processReferees rows\<rparr>
           in case processLifters rt configs rows (federation s4) (divisions s4) of
                Inl e \<Rightarrow> (s4, Raised e)
              | Inr ls \<Rightarrow>
                  (let s5 = s4\<lparr>lifters := ls\<rparr>
                   in case processAttempts rt rows (lifters s5) of
                        (Some e, atts, ls') \<Rightarrow> (s5\<lparr>lifters := ls'\<rparr>, Raised e)
                      | (None, atts, ls') \<Rightarrow>
                          (let s6 = s5\<lparr>lifters := ls', attempts := atts\<rparr>;
                               s7 = s6\<lparr>lifters := calculateBestLifts (lifters s6)\<rparr>;
                               s8 = s7\<lparr>lifters := calculatePlacings (lifters s7)\<rparr>;
                               s9 = s8\<lparr>platforms :=
                                         processRefereeLights rt (platforms s8) (referees s8)\<rparr>;
                               s10 = s9\<lparr>lastUpdate := Some now\<rparr>
                           in (s10, Broadcast (update_message s10))))))"

section \<open>Notions used to state and prove the properties\<close>

definition max_positive :: "lift \<Rightarrow> real" where
  "max_positive d =
     (let P = Set.filter (\<lambda>w. 0 < w) {slot1 d, slot2 d, slot3 d}
      in if P = {} then 0 else Max P)"

definition rank_key :: "lifter \<Rightarrow> real \<times> real" where
  "rank_key l = (- total l, bodyweight l)"

definition strip_place :: "lifter \<Rightarrow> lifter" where
  "strip_place l = l\<lparr>place := None\<rparr>"

definition group_refs :: "lifter list \<Rightarrow> string \<Rightarrow> nat list" where
  "group_refs st k = filter (\<lambda>r. group_key (st ! r) = k) [0..<length st]"

definition sorted_refs :: "lifter list \<Rightarrow> string \<Rightarrow> nat list" where
  "sorted_refs st k = sort_key (\<lambda>r. rank_key (st ! r)) (group_refs st k)"

definition index_of :: "'a list \<Rightarrow> 'a \<Rightarrow> nat" where
  "index_of xs x = length (takeWhile (\<lambda>y. y \<noteq> x) xs)"

definition rank_of :: "lifter list \<Rightarrow> nat \<Rightarrow> nat" where
  "rank_of st i = index_of (sorted_refs st (group_key (st ! i))) i"

definition scored :: "lifters \<Rightarrow> lifter list" where
  "scored ls = map (\<lambda>kl. score_lifter (snd kl)) ls"

definition slots :: "real \<Rightarrow> real \<Rightarrow> real \<Rightarrow> lift" where
  "slots a b c = \<lparr>slot1 = a, slot2 = b, slot3 = c, best = 0\<rparr>"

definition example_lifter :: "string \<Rightarrow> real \<Rightarrow> lift \<Rightarrow> lift \<Rightarrow> lift \<Rightarrow> lifter" where
  "example_lifter i bw s b d =
     \<lparr>lifter_id = i, lifter_name = ''A. Lifter'', sex = ''MALE'', weightClass = ''83'',
      bodyweight = bw, division = ''Open'', divisionId = Some ''d1'',
      squat = s, bench = b, deadlift = d, total = 0, place = None, records = [],
      squatRackHeight = '''', benchRackHeight = '''', team = '''', lot = None,
      lifter_platformId = None, session = None, flight = ''''\<rparr>"

definition example_lifters :: lifters where
  "example_lifters =
     [(''l1'', example_lifter ''l1'' 80 (slots 100 (-105) 105) (slots 0 0 0) (slots 150 0 0)),
      (''l2'', example_lifter ''l2'' 82 (slots 100 110 (-120)) (slots 60 0 0) (slots 130 0 0)),
      (''l3'', example_lifter ''l3'' 79 (slots 105 0 0) (slots 0 0 0) (slots 150 0 0)),
      (''l4'', example_lifter ''l4'' 81 (slots (-100) 0 0) (slots 0 0 0) (slots 0 0 0))]"

definition summary :: "string \<times> lifter \<Rightarrow> string \<times> (string option \<times> string \<times> string) \<times> real \<times> real \<times> real \<times> nat option" where
  "summary kl =
     (fst kl, (divisionId (snd kl), sex (snd kl), weightClass (snd kl)),
      bodyweight (snd kl), best (squat (snd kl)), total (snd kl), place (snd kl))"

text \<open>
  A runtime for the examples: the values of the runtime's functions on the strings and
  numbers that occur in the examples (the result on any other argument is not used).
  On the position labels of the examples \<^verbatim>\<open>localeCompare\<close> is the alphabetical order.
\<close>

definition example_runtime :: runtime where
  "example_runtime =
     \<lparr>parseFloat =
        (\<lambda>s. if s = ''59'' then Some 59 else if s = ''66'' then Some 66
             else if s = ''120'' then Some 120 else None),
      parseInt =
        (\<lambda>s. if s = ''1'' then Some 1 else if s = ''2'' then Some 2
             else if s = ''3'' then Some 3 else None),
      number_toString =
        (\<lambda>x. if x = 59 then ''59'' else if x = 66 then ''66''
             else if x = 120 then ''120'' else ''?''),
      localeCompare = (\<lambda>a b. if a < b then - 1 else if a = b then 0 else 1)\<rparr>"

text \<open>A federation with classes for men only.\<close>

definition example_configs :: fed_configs where
  "example_configs =
     [(''IPF'', \<lparr>weightClasses = [(''MALE'', [''59'', ''66'', ''120'', ''120+''])]\<rparr>)]"

definition empty_doc :: doc where
  "empty_doc =
     \<lparr>doc_id = None, doc_name = None, doc_date = None, doc_federation = None,
      doc_units = None, doc_plates = None, doc_dateFormat = None, doc_type = None,
      doc_clockState = None, doc_clockTimerLength = None, doc_barAndCollarsWeight = None,
      doc_currentAttemptId = None, doc_platformId = None, doc_position = None,
      doc_decision = None, doc_cards = None, doc_birthDate = None, doc_gender = None,
      doc_divisions = None, doc_bodyWeight = None, doc_squatRackHeight = None,
      doc_benchRackHeight = None, doc_team = None, doc_lot = None, doc_session = None,
      doc_flight = None, doc_lifterId = None, doc_liftName = None,
      doc_attemptNumber = None, doc_weight = None, doc_result = None,
      doc_decisions = None, doc_createDate = None\<rparr>"

definition lifter_doc :: doc where
  "lifter_doc =
     empty_doc\<lparr>doc_id := Some ''l1'', doc_name := Some ''A. Lifter'',
       doc_birthDate := Some ''1990-01-01'', doc_gender := Some ''MALE'',
       doc_bodyWeight := Some 65\<rparr>"

definition attempt_doc :: "string \<Rightarrow> string \<Rightarrow> string \<Rightarrow> real \<Rightarrow> string option \<Rightarrow> doc" where
  "attempt_doc i lname n w r =
     empty_doc\<lparr>doc_id := Some i, doc_lifterId := Some ''l1'', doc_liftName := Some lname,
       doc_attemptNumber := Some n, doc_weight := Some w, doc_result := r\<rparr>"

definition platform_doc :: doc where
  "platform_doc =
     empty_doc\<lparr>doc_id := Some ''p1'', doc_name := Some ''Platform 1'',
       doc_clockState := Some Clock_null\<rparr>"

definition referee_doc :: "string \<Rightarrow> string \<Rightarrow> string option \<Rightarrow> doc" where
  "referee_doc i pos dec =
     empty_doc\<lparr>doc_id := Some i, doc_platformId := Some ''p1'', doc_position := Some pos,
       doc_decision := dec\<rparr>"

definition example_rows :: "row list" where
  "example_rows =
     [Some lifter_doc,
      Some (attempt_doc ''a1'' ''squat'' ''1'' 100 (Some ''good'')),
      Some (attempt_doc ''a2'' ''squat'' ''2'' 105 (Some ''bad'')),
      Some (attempt_doc ''a3'' ''bench'' ''1'' 60 None),
      Some (attempt_doc ''a4'' ''dead'' ''1'' 150 (Some ''GOOD'')),
      Some platform_doc,
      Some (referee_doc ''r1'' ''right'' (Some ''bad'')),
      Some (referee_doc ''r2'' ''left'' (Some ''good'')),
      Some (referee_doc ''r3'' ''head'' None)]"

definition configured :: meetData where
  "configured = initial_meetData\<lparr>meetId := Some ''m1'', federation := Some ''IPF''\<rparr>"

definition example_state :: meetData where
  "example_state =
     fst (updateMeetData example_runtime example_configs (Json_object (Some example_rows))
            ''2025-10-05T12:00:00.000Z'' configured)"

text \<open>
  The class of a bodyweight in a non-empty list of boundaries, in the words of the
  specification: the label of the smallest boundary that is not below the bodyweight,
  or the label of the top boundary with \<^verbatim>\<open>+\<close> when the bodyweight exceeds them all.
  The label of a boundary is its number as the runtime prints it.
\<close>

definition smallest_class :: "runtime \<Rightarrow> real \<Rightarrow> real list \<Rightarrow> string" where
  "smallest_class rt b upper =
     (let fits = filter (\<lambda>w. b \<le> w) upper
      in if fits = [] then number_toString rt (Max (set upper)) @ ''+''
         else number_toString rt (Min (set fits)))"

text \<open>The boundaries configured for a sex.\<close>

definition own_table :: "thresholds \<Rightarrow> string \<Rightarrow> real list" where
  "own_table th sx =
     (if toUpperCase sx = ''MALE'' then MALE th
      else if toUpperCase sx = ''FEMALE'' then FEMALE th
      else [])"

text \<open>
  \<open>resolve\<close> as the specification states it: the male table whenever the requested sex
  has no configured boundaries.
\<close>

definition resolve_spec ::
    "runtime \<Rightarrow> thresholds \<Rightarrow> string option \<Rightarrow> real option \<Rightarrow> string" where
  "resolve_spec rt th s bw =
     (case (s, bw) of
        (Some sx, Some b) \<Rightarrow>
          if sx = [] \<or> b = 0 then ''0''
          else (let upper = (if own_table th sx = [] then MALE th else own_table th sx)
                in if upper = [] then ''0'' else smallest_class rt b upper)
      | _ \<Rightarrow> ''0'')"

text \<open>
  \<open>resolve\<close> as the code has it: the male table when the sex is neither \<^verbatim>\<open>MALE\<close> nor
  \<^verbatim>\<open>FEMALE\<close>, and \<^verbatim>\<open>"0"\<close> when the table of the sex is empty.
\<close>

definition resolve_code ::
    "runtime \<Rightarrow> thresholds \<Rightarrow> string option \<Rightarrow> real option \<Rightarrow> string" where
  "resolve_code rt th s bw =
     (case (s, bw) of
        (Some sx, Some b) \<Rightarrow>
          if sx = [] \<or> b = 0 then ''0''
          else (let upper = (if toUpperCase sx = ''FEMALE'' then FEMALE th else MALE th)
                in if upper = [] then ''0'' else smallest_class rt b upper)
      | _ \<Rightarrow> ''0'')"

text \<open>
  The slot an attempt document is linked to: the document passes the test of lines
  275-281, its lifter is in the dictionary, its lift names one of the lifter's three
  disciplines, and its attempt number is 1, 2 or 3.
\<close>

definition linked_slot :: "runtime \<Rightarrow> doc \<Rightarrow> lifters \<Rightarrow> (string \<times> discipline \<times> int) option" where
  "linked_slot rt d ls =
     (case (doc_id d, doc_lifterId d, doc_liftName d, doc_attemptNumber d) of
        (Some i, Some lid, Some lname, Some an) \<Rightarrow>
          if i \<noteq> [] \<and> startsWith i ''a'' \<and> lid \<noteq> [] \<and> lname \<noteq> [] \<and> an \<noteq> []
          then (case (map_of ls lid, parseInt rt an) of
                  (Some l, Some n) \<Rightarrow>
                    (case lifter_property l (liftType lname) of
                       Lift_object k \<Rightarrow> if 1 \<le> n \<and> n \<le> 3 then Some (lid, k, n) else None
                     | _ \<Rightarrow> None)
                | _ \<Rightarrow> None)
          else None
      | _ \<Rightarrow> None)"

text \<open>A comparator that orders: any two elements compare, and transitively.\<close>

definition consistent :: "('a \<Rightarrow> 'a \<Rightarrow> real) \<Rightarrow> bool" where
  "consistent c \<longleftrightarrow>
     (\<forall>a b. c a b \<le> 0 \<or> c b a \<le> 0) \<and>
     (\<forall>a b d. c a b \<le> 0 \<and> c b d \<le> 0 \<longrightarrow> c a d \<le> 0)"

text \<open>A lifter with no attempt yet, as \<^verbatim>\<open>processLifters\<close> leaves it.\<close>

definition pending_lifters :: lifters where
  "pending_lifters =
     [(''l1'', example_lifter ''l1'' 80 (slots 0 0 0) (slots 0 0 0) (slots 0 0 0))]"

text \<open>
  Two lifters with the same group key, the string
  \<^verbatim>\<open>${divisionId}_${sex}_${weightClass}\<close> of line 353, written out.
\<close>

definition same_key :: "lifter \<Rightarrow> lifter \<Rightarrow> bool" where
  "same_key a b \<longleftrightarrow>
     template_str (divisionId a) @ ''_'' @ sex a @ ''_'' @ weightClass a
       = template_str (divisionId b) @ ''_'' @ sex b @ ''_'' @ weightClass b"

text \<open>The example with a fifth lifter, alone in her group.\<close>

definition grouped_lifters :: lifters where
  "grouped_lifters =
     example_lifters @
     [(''l5'', (example_lifter ''l5'' 60 (slots 80 0 0) (slots 0 0 0) (slots 0 0 0))
                 \<lparr>sex := ''FEMALE'', weightClass := ''63''\<rparr>)]"

section \<open>Properties of the scoring passes\<close>

lemma compare_rank_key: "compare_lifters a b \<le> 0 \<longleftrightarrow> rank_key a \<le> rank_key b"
  by (auto simp: compare_lifters_def rank_key_def less_eq_prod_def)

lemma insert_by_insort:
  "(\<And>a b. c a b \<le> 0 \<longleftrightarrow> f a \<le> f b) \<Longrightarrow> insert_by c x ys = insort_key f x ys"
  by (induction ys) auto

lemma sort_by_sort_key:
  "(\<And>a b. c a b \<le> 0 \<longleftrightarrow> f a \<le> f b) \<Longrightarrow> sort_by c xs = sort_key f xs"
  by (induction xs) (auto simp: sort_by_def insert_by_insort)

lemma index_of_nth: "x \<in> set xs \<Longrightarrow> index_of xs x < length xs \<and> xs ! index_of xs x = x"
proof (induction xs)
  case Nil
  then show ?case by simp
next
  case (Cons y ys)
  then show ?case by (cases "y = x") (auto simp: index_of_def)
qed

lemma index_of_distinct: "distinct xs \<Longrightarrow> j < length xs \<Longrightarrow> index_of xs (xs ! j) = j"
proof (induction xs arbitrary: j)
  case Nil
  then show ?case by simp
next
  case (Cons y ys)
  then show ?case by (cases j) (auto simp: index_of_def)
qed

lemma assign_places_length: "length (assign_places rs n st) = length st"
  by (induction rs arbitrary: n st) simp_all

lemma assign_places_other: "i \<notin> set rs \<Longrightarrow> assign_places rs n st ! i = st ! i"
  by (induction rs arbitrary: n st) simp_all

lemma assign_places_nth:
  "distinct rs \<Longrightarrow> \<forall>r\<in>set rs. r < length st \<Longrightarrow> j < length rs \<Longrightarrow>
   assign_places rs n st ! (rs ! j) = placed (n + j) (st ! (rs ! j))"
proof (induction rs arbitrary: n st j)
  case Nil
  then show ?case by simp
next
  case (Cons r rs)
  define st' where "st' = st[r := placed n (st ! r)]"
  have unfold: "assign_places (r # rs) n st = assign_places rs (n + 1) st'"
    by (simp add: st'_def)
  have r_notin: "r \<notin> set rs" and d: "distinct rs" using Cons.prems(1) by simp_all
  have r_lt: "r < length st" using Cons.prems(2) by simp
  have b: "\<forall>x\<in>set rs. x < length st'" using Cons.prems(2) by (simp add: st'_def)
  show ?case
  proof (cases j)
    case 0
    have "assign_places rs (n + 1) st' ! r = st' ! r"
      using r_notin by (rule assign_places_other)
    also have "\<dots> = placed n (st ! r)"
      using r_lt by (simp add: st'_def)
    finally show ?thesis using 0 unfolding unfold by simp
  next
    case (Suc j')
    have j': "j' < length rs" using Cons.prems(3) Suc by simp
    then have "rs ! j' \<in> set rs" by simp
    with r_notin have ne: "r \<noteq> rs ! j'" by auto
    have same: "st' ! (rs ! j') = st ! (rs ! j')"
      using ne by (simp add: st'_def)
    have "assign_places rs (n + 1) st' ! (rs ! j') = placed (n + 1 + j') (st' ! (rs ! j'))"
      using d b j' by (rule Cons.IH)
    then show ?thesis using Suc unfolding unfold same by simp
  qed
qed

lemma map_of_push:
  "map_of (push_to_group k r gs) =
     (map_of gs)(k \<mapsto> (case map_of gs k of None \<Rightarrow> [r] | Some rs \<Rightarrow> rs @ [r]))"
proof (induction gs)
  case Nil
  then show ?case by simp
next
  case (Cons g gs)
  obtain k' rs where g: "g = (k', rs)" by (cases g)
  show ?case
  proof (cases "k' = k")
    case True
    then show ?thesis by (simp add: g fun_eq_iff)
  next
    case False
    then show ?thesis using Cons by (simp add: g fun_eq_iff)
  qed
qed

lemma map_fst_push:
  "map fst (push_to_group k r gs) =
     (if k \<in> fst ` set gs then map fst gs else map fst gs @ [k])"
proof (induction gs)
  case Nil
  then show ?case by simp
next
  case (Cons g gs)
  obtain k' rs where g: "g = (k', rs)" by (cases g)
  show ?case using Cons by (cases "k' = k") (simp_all add: g)
qed

lemma distinct_push:
  "distinct (map fst gs) \<Longrightarrow> distinct (map fst (push_to_group k r gs))"
  by (simp add: map_fst_push)

lemma build_prefix:
  fixes st :: "lifter list"
  defines "G \<equiv> \<lambda>m. fold (\<lambda>r gs. push_to_group (group_key (st ! r)) r gs) [0..<m] []"
  shows "distinct (map fst (G m)) \<and>
     (\<forall>k. map_of (G m) k =
        (if \<exists>j<m. group_key (st ! j) = k
         then Some (filter (\<lambda>r. group_key (st ! r) = k) [0..<m]) else None))"
proof (induction m)
  case 0
  then show ?case by (simp add: G_def)
next
  case (Suc m)
  have step: "G (Suc m) = push_to_group (group_key (st ! m)) m (G m)"
    by (simp add: G_def)
  have d: "distinct (map fst (G (Suc m)))"
    using Suc by (simp add: step distinct_push)
  have "map_of (G (Suc m)) k =
        (if \<exists>j<Suc m. group_key (st ! j) = k
         then Some (filter (\<lambda>r. group_key (st ! r) = k) [0..<Suc m]) else None)" for k
  proof (cases "group_key (st ! m) = k")
    case True
    show ?thesis
    proof (cases "\<exists>j<m. group_key (st ! j) = k")
      case True
      with Suc \<open>group_key (st ! m) = k\<close> show ?thesis
        by (auto simp: step map_of_push)
    next
      case False
      then have "filter (\<lambda>r. group_key (st ! r) = k) [0..<m] = []"
        by (auto simp: filter_empty_conv)
      with False Suc \<open>group_key (st ! m) = k\<close> show ?thesis
        by (auto simp: step map_of_push)
    qed
  next
    case False
    then have "(\<exists>j<Suc m. group_key (st ! j) = k) \<longleftrightarrow> (\<exists>j<m. group_key (st ! j) = k)"
      using less_Suc_eq by auto
    with False Suc show ?thesis
      by (simp add: step map_of_push)
  qed
  with d show ?case by blast
qed

lemma build_groups_distinct: "distinct (map fst (build_groups st))"
  using build_prefix[of st "length st"] by (simp add: build_groups_def)

lemma build_groups_map_of:
  "map_of (build_groups st) k =
     (if \<exists>j<length st. group_key (st ! j) = k then Some (group_refs st k) else None)"
  using build_prefix[of st "length st"] by (simp add: build_groups_def group_refs_def)

lemma build_groups_member:
  "(k, g) \<in> set (build_groups st) \<Longrightarrow> g = group_refs st k"
proof -
  assume "(k, g) \<in> set (build_groups st)"
  then have "map_of (build_groups st) k = Some g"
    using build_groups_distinct by simp
  then show ?thesis by (simp add: build_groups_map_of split: if_splits)
qed

lemma build_groups_keys:
  "i < length st \<Longrightarrow> group_key (st ! i) \<in> fst ` set (build_groups st)"
proof -
  assume "i < length st"
  then have "map_of (build_groups st) (group_key (st ! i)) \<noteq> None"
    by (auto simp: build_groups_map_of)
  then show ?thesis by (simp add: map_of_eq_None_iff)
qed

lemma insort_key_cong_set:
  "f x = g x \<Longrightarrow> (\<And>y. y \<in> set ys \<Longrightarrow> f y = g y) \<Longrightarrow> insort_key f x ys = insort_key g x ys"
  by (induction ys) simp_all

lemma sort_key_cong_set:
  "(\<And>x. x \<in> set xs \<Longrightarrow> f x = g x) \<Longrightarrow> sort_key f xs = sort_key g xs"
proof (induction xs)
  case Nil
  then show ?case by simp
next
  case (Cons x xs)
  have "sort_key f xs = sort_key g xs" using Cons by simp
  moreover have "insort_key f x (sort_key g xs) = insort_key g x (sort_key g xs)"
    using Cons.prems by (intro insort_key_cong_set) simp_all
  ultimately show ?case by simp
qed

lemma rank_group_sort_key:
  "rank_group g st = assign_places (sort_key (\<lambda>r. rank_key (st ! r)) g) 0 st"
  unfolding rank_group_def
  by (subst sort_by_sort_key[where f = "\<lambda>r. rank_key (st ! r)"]) (simp_all add: compare_rank_key)

lemma strip_place_total: "strip_place a = strip_place b \<Longrightarrow> total a = total b"
  by (drule arg_cong[where f = total]) (simp add: strip_place_def)

lemma strip_place_bodyweight: "strip_place a = strip_place b \<Longrightarrow> bodyweight a = bodyweight b"
  by (drule arg_cong[where f = bodyweight]) (simp add: strip_place_def)

lemma strip_place_group_key: "strip_place a = strip_place b \<Longrightarrow> group_key a = group_key b"
  by (drule arg_cong[where f = group_key]) (simp add: strip_place_def group_key_def)

lemma strip_place_rank_key: "strip_place a = strip_place b \<Longrightarrow> rank_key a = rank_key b"
  using strip_place_total[of a b] strip_place_bodyweight[of a b] by (simp add: rank_key_def)

lemma strip_place_placed: "strip_place (placed n l) = strip_place l"
  by (simp add: strip_place_def placed_def)

lemma group_refs_set: "set (group_refs st k) = {i. i < length st \<and> group_key (st ! i) = k}"
  by (auto simp: group_refs_def)

lemma group_refs_distinct: "distinct (group_refs st k)"
  by (simp add: group_refs_def)

lemma sorted_refs_set: "set (sorted_refs st k) = {i. i < length st \<and> group_key (st ! i) = k}"
  by (simp add: sorted_refs_def group_refs_set)

lemma sorted_refs_distinct: "distinct (sorted_refs st k)"
  by (simp add: sorted_refs_def group_refs_distinct)

lemma sorted_refs_sorted: "sorted (map (\<lambda>r. rank_key (st ! r)) (sorted_refs st k))"
  by (simp add: sorted_refs_def)

lemma rank_group_agree:
  assumes len: "length st = length st0"
    and agree: "\<And>i. i < length st0 \<Longrightarrow> strip_place (st ! i) = strip_place (st0 ! i)"
  shows "rank_group (group_refs st0 k) st = assign_places (sorted_refs st0 k) 0 st"
proof -
  have "sort_key (\<lambda>r. rank_key (st ! r)) (group_refs st0 k) =
        sort_key (\<lambda>r. rank_key (st0 ! r)) (group_refs st0 k)"
  proof (rule sort_key_cong_set)
    fix x assume "x \<in> set (group_refs st0 k)"
    then have "x < length st0" by (simp add: group_refs_set)
    then show "rank_key (st ! x) = rank_key (st0 ! x)"
      by (intro strip_place_rank_key agree)
  qed
  then show ?thesis by (simp add: rank_group_sort_key sorted_refs_def)
qed

lemma assign_sorted_refs:
  assumes len: "length st = length st0"
  shows "length (assign_places (sorted_refs st0 k) 0 st) = length st0"
    and "i < length st0 \<Longrightarrow> group_key (st0 ! i) \<noteq> k \<Longrightarrow>
           assign_places (sorted_refs st0 k) 0 st ! i = st ! i"
    and "i < length st0 \<Longrightarrow> group_key (st0 ! i) = k \<Longrightarrow>
           assign_places (sorted_refs st0 k) 0 st ! i = placed (rank_of st0 i) (st ! i)"
proof -
  let ?s = "sorted_refs st0 k"
  show "length (assign_places ?s 0 st) = length st0"
    by (simp add: assign_places_length len)
  show "assign_places ?s 0 st ! i = st ! i"
    if "i < length st0" "group_key (st0 ! i) \<noteq> k"
  proof (rule assign_places_other)
    show "i \<notin> set ?s" using that by (simp add: sorted_refs_set)
  qed
  show "assign_places ?s 0 st ! i = placed (rank_of st0 i) (st ! i)"
    if "i < length st0" "group_key (st0 ! i) = k"
  proof -
    have mem: "i \<in> set ?s" using that by (simp add: sorted_refs_set)
    define j where "j = index_of ?s i"
    have j: "j < length ?s" "?s ! j = i"
      using index_of_nth[OF mem] by (simp_all add: j_def)
    have bound: "\<forall>r\<in>set ?s. r < length st"
      by (simp add: sorted_refs_set len)
    have "assign_places ?s 0 st ! (?s ! j) = placed (0 + j) (st ! (?s ! j))"
      using sorted_refs_distinct bound j(1) by (rule assign_places_nth)
    moreover have "rank_of st0 i = j"
      using that by (simp add: rank_of_def j_def)
    ultimately show ?thesis using j(2) by simp
  qed
qed

lemma fold_rank_groups:
  assumes "distinct (map fst gs)"
    and "\<And>k g. (k, g) \<in> set gs \<Longrightarrow> g = group_refs st0 k"
    and "length st = length st0"
    and "\<And>i. i < length st0 \<Longrightarrow> strip_place (st ! i) = strip_place (st0 ! i)"
  shows "length (fold (\<lambda>(k, g). rank_group g) gs st) = length st0 \<and>
    (\<forall>i<length st0. fold (\<lambda>(k, g). rank_group g) gs st ! i =
        (if group_key (st0 ! i) \<in> fst ` set gs then placed (rank_of st0 i) (st ! i) else st ! i))"
  using assms
proof (induction gs arbitrary: st)
  case Nil
  then show ?case by simp
next
  case (Cons kg gs)
  obtain k g where kg: "kg = (k, g)" by (cases kg)
  have g: "g = group_refs st0 k" using Cons.prems(2)[of k g] by (simp add: kg)
  define st1 where "st1 = rank_group g st"
  have st1: "st1 = assign_places (sorted_refs st0 k) 0 st"
    unfolding st1_def g using Cons.prems(3,4) by (rule rank_group_agree)
  have len1: "length st1 = length st0"
    unfolding st1 using Cons.prems(3) by (rule assign_sorted_refs(1))
  have other: "st1 ! i = st ! i" if "i < length st0" "group_key (st0 ! i) \<noteq> k" for i
    unfolding st1 using Cons.prems(3) that by (rule assign_sorted_refs(2))
  have mine: "st1 ! i = placed (rank_of st0 i) (st ! i)"
    if "i < length st0" "group_key (st0 ! i) = k" for i
    unfolding st1 using Cons.prems(3) that by (rule assign_sorted_refs(3))
  have agree1: "strip_place (st1 ! i) = strip_place (st0 ! i)" if "i < length st0" for i
  proof (cases "group_key (st0 ! i) = k")
    case True
    then show ?thesis using that Cons.prems(4)[of i] by (simp add: mine strip_place_placed)
  next
    case False
    then show ?thesis using that Cons.prems(4)[of i] by (simp add: other)
  qed
  have d: "distinct (map fst gs)" and k_new: "k \<notin> fst ` set gs"
    using Cons.prems(1) by (simp_all add: kg)
  have members: "\<And>k g. (k, g) \<in> set gs \<Longrightarrow> g = group_refs st0 k"
    using Cons.prems(2) by simp
  have IH: "length (fold (\<lambda>(k, g). rank_group g) gs st1) = length st0 \<and>
    (\<forall>i<length st0. fold (\<lambda>(k, g). rank_group g) gs st1 ! i =
        (if group_key (st0 ! i) \<in> fst ` set gs then placed (rank_of st0 i) (st1 ! i) else st1 ! i))"
    using d members len1 agree1 by (rule Cons.IH)
  have step: "fold (\<lambda>(k, g). rank_group g) (kg # gs) st = fold (\<lambda>(k, g). rank_group g) gs st1"
    by (simp add: kg st1_def)
  have "fold (\<lambda>(k, g). rank_group g) gs st1 ! i =
        (if group_key (st0 ! i) \<in> fst ` set (kg # gs) then placed (rank_of st0 i) (st ! i) else st ! i)"
    if i: "i < length st0" for i
  proof (cases "group_key (st0 ! i) = k")
    case True
    then have "group_key (st0 ! i) \<notin> fst ` set gs" using k_new by simp
    then have "fold (\<lambda>(k, g). rank_group g) gs st1 ! i = st1 ! i" using IH i by simp
    then show ?thesis using True i by (simp add: mine kg)
  next
    case False
    then show ?thesis using IH i by (simp add: other kg)
  qed
  then show ?case unfolding step using IH by blast
qed

lemma place_lifters_length: "length (place_lifters st) = length st"
  unfolding place_lifters_def
  using fold_rank_groups[of "build_groups st" st st, OF build_groups_distinct build_groups_member]
  by simp

lemma place_lifters_nth:
  "i < length st \<Longrightarrow> place_lifters st ! i = placed (rank_of st i) (st ! i)"
  unfolding place_lifters_def
  using fold_rank_groups[of "build_groups st" st st, OF build_groups_distinct build_groups_member]
    build_groups_keys[of i st]
  by simp

lemma best_lift_max_positive: "best_lift d = max_positive d"
proof -
  let ?xs = "filter (\<lambda>w. 0 < w) [slot1 d, slot2 d, slot3 d]"
  have s: "set ?xs = Set.filter (\<lambda>w. 0 < w) {slot1 d, slot2 d, slot3 d}" by auto
  show ?thesis
  proof (cases ?xs)
    case Nil
    then have "set ?xs = {}" by simp
    with Nil show ?thesis unfolding best_lift_def max_positive_def s[symmetric] by simp
  next
    case (Cons w ws)
    have "fold max ws w = Max (set (w # ws))"
      by (rule Max.set_eq_fold[symmetric])
    then show ?thesis unfolding best_lift_def max_positive_def s[symmetric] Cons
      by (simp add: Let_def)
  qed
qed

lemma best_lift_nonneg: "0 \<le> best_lift d"
  by (simp add: best_lift_def max_def)

lemma best_lift_best_update: "best_lift (d\<lparr>best := b\<rparr>) = best_lift d"
  by (simp add: best_lift_def)

lemma max_positive_best_update: "max_positive (d\<lparr>best := b\<rparr>) = max_positive d"
  by (simp add: max_positive_def)

lemma score_lifter_squat: "squat (score_lifter l) = (squat l)\<lparr>best := best_lift (squat l)\<rparr>"
  by (simp add: score_lifter_def Let_def)

lemma score_lifter_bench: "bench (score_lifter l) = (bench l)\<lparr>best := best_lift (bench l)\<rparr>"
  by (simp add: score_lifter_def Let_def)

lemma score_lifter_deadlift:
  "deadlift (score_lifter l) = (deadlift l)\<lparr>best := best_lift (deadlift l)\<rparr>"
  by (simp add: score_lifter_def Let_def)

lemma score_lifter_total:
  "total (score_lifter l) =
     best_lift (squat l) + best_lift (bench l) + best_lift (deadlift l)"
  by (simp add: score_lifter_def Let_def or_zero_def)

lemma score_lifter_place: "place (score_lifter l) = place l"
  by (simp add: score_lifter_def Let_def)

lemma score_lifter_place_update:
  "score_lifter (l\<lparr>place := p\<rparr>) = (score_lifter l)\<lparr>place := p\<rparr>"
  by (simp add: score_lifter_def Let_def)

lemma score_lifter_idem: "score_lifter (score_lifter l) = score_lifter l"
  by (simp add: score_lifter_def Let_def best_lift_best_update)

lemma score_lifter_placed:
  "score_lifter v = v \<Longrightarrow> score_lifter (placed n v) = placed n v"
  unfolding placed_def by (simp only: score_lifter_place_update)

lemma placed_placed: "placed m (placed n l) = placed m l"
  by (simp add: placed_def)

lemma placed_total: "total (placed n l) = total l"
  by (simp add: placed_def)

lemma placed_place: "place (placed n l) = (if 0 < total l then Some (n + 1) else None)"
  by (simp add: placed_def)

lemma group_refs_agree:
  assumes "length st = length st0"
    and "\<And>i. i < length st0 \<Longrightarrow> strip_place (st ! i) = strip_place (st0 ! i)"
  shows "group_refs st k = group_refs st0 k"
proof -
  have "filter (\<lambda>r. group_key (st ! r) = k) [0..<length st0] =
        filter (\<lambda>r. group_key (st0 ! r) = k) [0..<length st0]"
  proof (rule filter_cong[OF refl])
    fix x assume "x \<in> set [0..<length st0]"
    then have "x < length st0" by simp
    then have "group_key (st ! x) = group_key (st0 ! x)"
      by (intro strip_place_group_key assms(2))
    then show "(group_key (st ! x) = k) = (group_key (st0 ! x) = k)" by simp
  qed
  then show ?thesis by (simp add: group_refs_def assms(1))
qed

lemma sorted_refs_agree:
  assumes "length st = length st0"
    and "\<And>i. i < length st0 \<Longrightarrow> strip_place (st ! i) = strip_place (st0 ! i)"
  shows "sorted_refs st k = sorted_refs st0 k"
proof -
  have g: "group_refs st k = group_refs st0 k" using assms by (rule group_refs_agree)
  have "sort_key (\<lambda>r. rank_key (st ! r)) (group_refs st0 k) =
        sort_key (\<lambda>r. rank_key (st0 ! r)) (group_refs st0 k)"
  proof (rule sort_key_cong_set)
    fix x assume "x \<in> set (group_refs st0 k)"
    then have "x < length st0" by (simp add: group_refs_set)
    then show "rank_key (st ! x) = rank_key (st0 ! x)"
      by (intro strip_place_rank_key assms(2))
  qed
  then show ?thesis by (simp add: sorted_refs_def g)
qed

lemma rank_of_agree:
  assumes "length st = length st0"
    and "\<And>i. i < length st0 \<Longrightarrow> strip_place (st ! i) = strip_place (st0 ! i)"
    and "i < length st0"
  shows "rank_of st i = rank_of st0 i"
proof -
  have "group_key (st ! i) = group_key (st0 ! i)"
    using assms(2,3) by (intro strip_place_group_key)
  moreover have "sorted_refs st k = sorted_refs st0 k" for k
    using assms(1,2) by (rule sorted_refs_agree)
  ultimately show ?thesis by (simp add: rank_of_def)
qed

lemma place_lifters_agree:
  "i < length st \<Longrightarrow> strip_place (place_lifters st ! i) = strip_place (st ! i)"
  by (simp add: place_lifters_nth strip_place_placed)

lemma place_lifters_idem: "place_lifters (place_lifters st) = place_lifters st"
proof (rule nth_equalityI)
  show "length (place_lifters (place_lifters st)) = length (place_lifters st)"
    by (simp add: place_lifters_length)
next
  fix i assume "i < length (place_lifters (place_lifters st))"
  then have i: "i < length st" by (simp add: place_lifters_length)
  have r: "rank_of (place_lifters st) i = rank_of st i"
    using place_lifters_length place_lifters_agree i by (rule rank_of_agree)
  have "place_lifters (place_lifters st) ! i =
        placed (rank_of (place_lifters st) i) (place_lifters st ! i)"
    using i by (simp add: place_lifters_nth place_lifters_length)
  also have "\<dots> = placed (rank_of st i) (placed (rank_of st i) (st ! i))"
    using i by (simp add: r place_lifters_nth)
  also have "\<dots> = place_lifters st ! i"
    using i by (simp add: placed_placed place_lifters_nth)
  finally show "place_lifters (place_lifters st) ! i = place_lifters st ! i" .
qed

lemma rank_of_less:
  assumes i: "i < length st" and j: "j < length st"
    and same: "group_key (st ! i) = group_key (st ! j)"
    and less: "rank_key (st ! i) < rank_key (st ! j)"
  shows "rank_of st i < rank_of st j"
proof (rule ccontr)
  let ?s = "sorted_refs st (group_key (st ! i))"
  assume "\<not> rank_of st i < rank_of st j"
  then have le: "rank_of st j \<le> rank_of st i" by simp
  have mi: "i \<in> set ?s" and mj: "j \<in> set ?s"
    using i j same by (simp_all add: sorted_refs_set)
  have ri: "rank_of st i < length ?s" "?s ! rank_of st i = i"
    using index_of_nth[OF mi] by (simp_all add: rank_of_def)
  have rj: "rank_of st j < length ?s" "?s ! rank_of st j = j"
    using index_of_nth[OF mj] same by (simp_all add: rank_of_def)
  have "map (\<lambda>r. rank_key (st ! r)) ?s ! rank_of st j
        \<le> map (\<lambda>r. rank_key (st ! r)) ?s ! rank_of st i"
    using sorted_refs_sorted le ri(1) by (intro sorted_nth_mono) simp_all
  then have "rank_key (st ! j) \<le> rank_key (st ! i)"
    using ri rj by simp
  with less show False by simp
qed

lemma rank_of_inj:
  assumes i: "i < length st" and j: "j < length st"
    and same: "group_key (st ! i) = group_key (st ! j)"
    and eq: "rank_of st i = rank_of st j"
  shows "i = j"
proof -
  define s where "s = sorted_refs st (group_key (st ! i))"
  have mi: "i \<in> set s" and mj: "j \<in> set s"
    using i j same by (simp_all add: s_def sorted_refs_set)
  have ri: "rank_of st i = index_of s i" by (simp add: rank_of_def s_def)
  have rj: "rank_of st j = index_of s j" by (simp add: rank_of_def s_def same)
  have "i = s ! index_of s i" using index_of_nth[OF mi] by simp
  also have "\<dots> = s ! index_of s j" using eq by (simp only: ri rj)
  also have "\<dots> = j" using index_of_nth[OF mj] by simp
  finally show ?thesis .
qed

lemma calculateBestLifts_fst: "map fst (calculateBestLifts ls) = map fst ls"
  by (simp add: calculateBestLifts_def case_prod_unfold comp_def)

lemma calculateBestLifts_snd: "map snd (calculateBestLifts ls) = scored ls"
  by (simp add: calculateBestLifts_def scored_def case_prod_unfold comp_def)

lemma scoring_pass_eq: "scoring_pass ls = zip (map fst ls) (place_lifters (scored ls))"
  by (simp add: scoring_pass_def calculatePlacings_def calculateBestLifts_fst
      calculateBestLifts_snd)

lemma scoring_pass_length: "length (scoring_pass ls) = length ls"
  by (simp add: scoring_pass_eq place_lifters_length scored_def)

lemma scoring_pass_nth:
  "i < length ls \<Longrightarrow>
   scoring_pass ls ! i =
     (fst (ls ! i), placed (rank_of (scored ls) i) (score_lifter (snd (ls ! i))))"
  by (simp add: scoring_pass_eq place_lifters_length place_lifters_nth scored_def)

lemma scored_scoring_pass: "scored (scoring_pass ls) = place_lifters (scored ls)"
proof (rule nth_equalityI)
  show "length (scored (scoring_pass ls)) = length (place_lifters (scored ls))"
    by (simp add: scored_def scoring_pass_length place_lifters_length)
next
  fix i assume "i < length (scored (scoring_pass ls))"
  then have i: "i < length ls" by (simp add: scored_def scoring_pass_length)
  have "scored (scoring_pass ls) ! i =
        score_lifter (placed (rank_of (scored ls) i) (score_lifter (snd (ls ! i))))"
    using i by (simp add: scored_def scoring_pass_length scoring_pass_nth)
  also have "\<dots> = placed (rank_of (scored ls) i) (score_lifter (snd (ls ! i)))"
    by (rule score_lifter_placed) (rule score_lifter_idem)
  also have "\<dots> = place_lifters (scored ls) ! i"
    using i by (simp add: place_lifters_nth scored_def)
  finally show "scored (scoring_pass ls) ! i = place_lifters (scored ls) ! i" .
qed

lemma scoring_pass_idem: "scoring_pass (scoring_pass ls) = scoring_pass ls"
proof -
  have "map fst (scoring_pass ls) = map fst ls"
    by (simp add: scoring_pass_eq place_lifters_length scored_def)
  then show ?thesis
    by (simp add: scoring_pass_eq[of "scoring_pass ls"] scored_scoring_pass place_lifters_idem
        scoring_pass_eq[of ls, symmetric])
qed

lemma placed_squat: "squat (placed n l) = squat l"
  by (simp add: placed_def)

lemma placed_bench: "bench (placed n l) = bench l"
  by (simp add: placed_def)

lemma placed_deadlift: "deadlift (placed n l) = deadlift l"
  by (simp add: placed_def)

lemma scoring_pass_member:
  assumes "(k, l) \<in> set (scoring_pass ls)"
  obtains i where "i < length ls"
    and "l = placed (rank_of (scored ls) i) (score_lifter (snd (ls ! i)))"
proof -
  from assms obtain i where i: "i < length (scoring_pass ls)" "scoring_pass ls ! i = (k, l)"
    by (auto simp: in_set_conv_nth)
  then have "i < length ls" by (simp add: scoring_pass_length)
  moreover from this i(2)
  have "l = placed (rank_of (scored ls) i) (score_lifter (snd (ls ! i)))"
    by (simp add: scoring_pass_nth)
  ultimately show ?thesis by (rule that)
qed

lemma scored_best:
  "best (squat (score_lifter v)) = max_positive (squat (score_lifter v))"
  "best (bench (score_lifter v)) = max_positive (bench (score_lifter v))"
  "best (deadlift (score_lifter v)) = max_positive (deadlift (score_lifter v))"
  by (simp_all add: score_lifter_squat score_lifter_bench score_lifter_deadlift
      max_positive_best_update best_lift_max_positive)

lemma scored_total:
  "total (score_lifter v) =
     best (squat (score_lifter v)) + best (bench (score_lifter v))
       + best (deadlift (score_lifter v))"
  by (simp add: score_lifter_total score_lifter_squat score_lifter_bench score_lifter_deadlift)

lemma scored_best_nonneg:
  "0 \<le> best (squat (score_lifter v))" "0 \<le> best (bench (score_lifter v))"
  "0 \<le> best (deadlift (score_lifter v))"
  by (simp_all add: score_lifter_squat score_lifter_bench score_lifter_deadlift best_lift_nonneg)

text \<open>
  Claim C1. After a scoring pass (\<^verbatim>\<open>calculateBestLifts\<close>, then
  \<^verbatim>\<open>calculatePlacings\<close>), for every lifter of the snapshot and each of squat, bench and
  deadlift, \<^verbatim>\<open>best\<close> is the maximum of the strictly positive slot values (0 when
  no slot is positive), \<^verbatim>\<open>total\<close> is the sum of the three \<^verbatim>\<open>best\<close> values, and
  \<^verbatim>\<open>place\<close> is not \<^verbatim>\<open>null\<close> exactly when \<^verbatim>\<open>total > 0\<close>.
\<close>

theorem scoring_pass_invariants:
  assumes "(k, l) \<in> set (scoring_pass ls)"
  shows "best (squat l) = max_positive (squat l) \<and>
         best (bench l) = max_positive (bench l) \<and>
         best (deadlift l) = max_positive (deadlift l) \<and>
         total l = best (squat l) + best (bench l) + best (deadlift l) \<and>
         (place l \<noteq> None \<longleftrightarrow> 0 < total l)"
proof -
  from assms obtain i where
    l: "l = placed (rank_of (scored ls) i) (score_lifter (snd (ls ! i)))"
    by (rule scoring_pass_member)
  show ?thesis
    unfolding l placed_squat placed_bench placed_deadlift placed_total placed_place
    using scored_best[of "snd (ls ! i)"] scored_total[of "snd (ls ! i)"]
    by simp
qed

lemma example_summary:
  "map summary (scoring_pass example_lifters) =
     [(''l1'', (Some ''d1'', ''MALE'', ''83''), 80, 105, 255, Some 3),
      (''l2'', (Some ''d1'', ''MALE'', ''83''), 82, 110, 300, Some 1),
      (''l3'', (Some ''d1'', ''MALE'', ''83''), 79, 105, 255, Some 2),
      (''l4'', (Some ''d1'', ''MALE'', ''83''), 81, 0, 0, None)]"
  by code_simp

lemma example_length: "length (scoring_pass example_lifters) = 4"
  by (simp add: scoring_pass_length example_lifters_def)

lemma example_first:
  "summary (scoring_pass example_lifters ! 0) =
     (''l1'', (Some ''d1'', ''MALE'', ''83''), 80, 105, 255, Some 3)"
proof -
  have "map summary (scoring_pass example_lifters) ! 0 =
        (''l1'', (Some ''d1'', ''MALE'', ''83''), 80, 105, 255, Some 3)"
    by (simp only: example_summary nth_Cons_0)
  then show ?thesis by (simp add: example_length)
qed

lemma example_third:
  "summary (scoring_pass example_lifters ! 2) =
     (''l3'', (Some ''d1'', ''MALE'', ''83''), 79, 105, 255, Some 2)"
proof -
  have "map summary (scoring_pass example_lifters) ! 2 =
        (''l3'', (Some ''d1'', ''MALE'', ''83''), 79, 105, 255, Some 2)"
    unfolding example_summary by simp
  then show ?thesis by (simp add: example_length)
qed

theorem scoring_pass_invariants_witness:
  "(''l1'', snd (scoring_pass example_lifters ! 0)) \<in> set (scoring_pass example_lifters) \<and>
   best (squat (snd (scoring_pass example_lifters ! 0))) = 105 \<and>
   max_positive (squat (snd (scoring_pass example_lifters ! 0))) = 105 \<and>
   total (snd (scoring_pass example_lifters ! 0)) = 255 \<and>
   place (snd (scoring_pass example_lifters ! 0)) = Some 3"
proof -
  let ?l = "snd (scoring_pass example_lifters ! 0)"
  have "scoring_pass example_lifters ! 0 \<in> set (scoring_pass example_lifters)"
    by (intro nth_mem) (simp add: example_length)
  moreover have "fst (scoring_pass example_lifters ! 0) = ''l1''"
    using example_first by (simp add: summary_def)
  ultimately have mem: "(''l1'', ?l) \<in> set (scoring_pass example_lifters)"
    by (metis prod.collapse)
  have "best (squat ?l) = 105" "total ?l = 255" "place ?l = Some 3"
    using example_first by (simp_all add: summary_def)
  with scoring_pass_invariants[OF mem] mem show ?thesis by simp
qed

text \<open>
  The example of the specification: squat 100, -105, 105, bench pending, deadlift 150.
  The bench has no successful lift and the total is 255, not 0.
\<close>

theorem zero_discipline_keeps_total:
  "best (bench (snd (calculateBestLifts example_lifters ! 0))) = 0 \<and>
   total (snd (calculateBestLifts example_lifters ! 0)) = 255"
  by code_simp

text \<open>
  Claim C2, amended. After best-lift derivation the total of every lifter is the sum of
  the three \<^verbatim>\<open>best\<close> values: a discipline without a successful lift adds 0 and
  leaves the rest of the total in place, and the total is 0 exactly when all three
  disciplines have \<^verbatim>\<open>best\<close> 0.
\<close>

theorem total_is_sum_of_bests:
  assumes "(k, l) \<in> set (calculateBestLifts ls)"
  shows "total l = best (squat l) + best (bench l) + best (deadlift l) \<and>
         (total l = 0 \<longleftrightarrow> best (squat l) = 0 \<and> best (bench l) = 0 \<and> best (deadlift l) = 0)"
proof -
  from assms obtain v where l: "l = score_lifter v"
    by (auto simp: calculateBestLifts_def)
  show ?thesis unfolding l
    using scored_total[of v] scored_best_nonneg[of v] by linarith
qed

theorem total_is_sum_of_bests_witness:
  "(''l1'', snd (calculateBestLifts example_lifters ! 0)) \<in> set (calculateBestLifts example_lifters) \<and>
   total (snd (calculateBestLifts example_lifters ! 0)) =
     best (squat (snd (calculateBestLifts example_lifters ! 0)))
     + best (bench (snd (calculateBestLifts example_lifters ! 0)))
     + best (deadlift (snd (calculateBestLifts example_lifters ! 0)))"
proof -
  have mem: "(''l1'', snd (calculateBestLifts example_lifters ! 0))
      \<in> set (calculateBestLifts example_lifters)"
    by (simp add: calculateBestLifts_def example_lifters_def)
  from total_is_sum_of_bests[OF mem] mem show ?thesis by simp
qed

lemma placements_in_group:
  assumes "i < length ls" and "j < length ls"
    and "a = snd (scoring_pass ls ! i)" and "b = snd (scoring_pass ls ! j)"
    and "divisionId a = divisionId b" and "sex a = sex b" and "weightClass a = weightClass b"
    and "place a = Some p" and "place b = Some q"
  shows "(total b < total a \<longrightarrow> p < q) \<and>
         (total a = total b \<and> bodyweight a < bodyweight b \<longrightarrow> p < q) \<and>
         (i \<noteq> j \<longrightarrow> p \<noteq> q)"
proof -
  define st where "st = scored ls"
  have len: "length st = length ls" by (simp add: st_def scored_def)
  have a: "a = placed (rank_of st i) (st ! i)"
    using assms(1) by (simp add: assms(3) scoring_pass_nth st_def scored_def)
  have b: "b = placed (rank_of st j) (st ! j)"
    using assms(2) by (simp add: assms(4) scoring_pass_nth st_def scored_def)
  have ta: "total a = total (st ! i)" and tb: "total b = total (st ! j)"
    by (simp_all add: a b placed_total)
  have wa: "bodyweight a = bodyweight (st ! i)" and wb: "bodyweight b = bodyweight (st ! j)"
    by (simp_all add: a b placed_def)
  have "strip_place a = strip_place (st ! i)" "strip_place b = strip_place (st ! j)"
    by (simp_all add: a b strip_place_placed)
  then have "group_key a = group_key (st ! i)" "group_key b = group_key (st ! j)"
    by (auto dest: strip_place_group_key)
  moreover have "group_key a = group_key b"
    using assms(5,6,7) by (simp add: group_key_def)
  ultimately have same: "group_key (st ! i) = group_key (st ! j)" by simp
  have p: "p = rank_of st i + 1"
    using assms(8) by (simp add: a placed_place split: if_splits)
  have q: "q = rank_of st j + 1"
    using assms(9) by (simp add: b placed_place split: if_splits)
  have i: "i < length st" and j: "j < length st" using assms(1,2) len by simp_all
  have less: "rank_key (st ! i) < rank_key (st ! j) \<Longrightarrow> p < q"
    using rank_of_less[OF i j same] by (simp add: p q)
  have 1: "total b < total a \<longrightarrow> p < q"
    using less by (simp add: ta tb rank_key_def less_prod_def)
  have 2: "total a = total b \<and> bodyweight a < bodyweight b \<longrightarrow> p < q"
    using less by (simp add: ta tb wa wb rank_key_def less_prod_def)
  have 3: "i \<noteq> j \<longrightarrow> p \<noteq> q"
    using rank_of_inj[OF i j same] by (auto simp: p q)
  from 1 2 3 show ?thesis by blast
qed

lemma group_refs_length:
  "length (group_refs st k) = length (filter (\<lambda>l. group_key l = k) st)"
proof -
  have "filter (\<lambda>l. group_key l = k) st
      = filter (\<lambda>l. group_key l = k) (map ((!) st) [0..<length st])"
    by (simp add: map_nth)
  also have "\<dots> = map ((!) st) (filter (\<lambda>r. group_key (st ! r) = k) [0..<length st])"
    by (simp add: filter_map comp_def)
  finally show ?thesis by (simp add: group_refs_def)
qed

lemma rank_of_bound:
  assumes "i < length st"
  shows "rank_of st i < length (filter (\<lambda>l. group_key l = group_key (st ! i)) st)"
proof -
  let ?s = "sorted_refs st (group_key (st ! i))"
  have "i \<in> set ?s" using assms by (simp add: sorted_refs_set)
  then have "rank_of st i < length ?s"
    using index_of_nth[of i ?s] by (simp add: rank_of_def)
  also have "length ?s = length (group_refs st (group_key (st ! i)))"
    by (simp add: sorted_refs_def)
  finally show ?thesis by (simp add: group_refs_length)
qed

lemma same_key_group_key: "same_key a b \<longleftrightarrow> group_key a = group_key b"
  by (simp add: same_key_def group_key_def)

lemma place_lifters_group_key:
  "i < length st \<Longrightarrow> group_key (place_lifters st ! i) = group_key (st ! i)"
  using place_lifters_agree[of i st] by (rule strip_place_group_key)

lemma filter_key_length:
  assumes "map f xs = map f ys"
  shows "length (filter (\<lambda>x. f x = k) xs) = length (filter (\<lambda>y. f y = k) ys)"
proof -
  have "length (filter (\<lambda>x. f x = k) xs) = length (filter (\<lambda>v. v = k) (map f xs))"
    by (simp add: filter_map comp_def)
  also have "\<dots> = length (filter (\<lambda>y. f y = k) ys)"
    unfolding assms by (simp add: filter_map comp_def)
  finally show ?thesis .
qed

lemma place_within_group:
  assumes "i < length ls" and "place (snd (scoring_pass ls ! i)) = Some p"
  shows "1 \<le> p \<and>
         p \<le> length (filter (\<lambda>kl. same_key (snd kl) (snd (scoring_pass ls ! i)))
                       (scoring_pass ls))"
proof -
  define st where "st = scored ls"
  have len: "length st = length ls" by (simp add: st_def scored_def)
  have i: "i < length st" using assms(1) len by simp
  have a: "snd (scoring_pass ls ! i) = place_lifters st ! i"
    using assms(1) by (simp add: scoring_pass_nth place_lifters_nth st_def scored_def)
  have key: "group_key (snd (scoring_pass ls ! i)) = group_key (st ! i)"
    unfolding a using i by (rule place_lifters_group_key)
  have p: "p = rank_of st i + 1"
    using assms(2) i unfolding a by (simp add: place_lifters_nth placed_place split: if_splits)
  have snds: "map snd (scoring_pass ls) = place_lifters st"
    by (simp add: scoring_pass_eq st_def place_lifters_length scored_def)
  have gkeys: "map group_key (place_lifters st) = map group_key st"
    by (rule nth_equalityI)
      (simp_all add: place_lifters_length place_lifters_group_key)
  have "length (filter (\<lambda>kl. same_key (snd kl) (snd (scoring_pass ls ! i))) (scoring_pass ls))
      = length (filter (\<lambda>l. group_key l = group_key (st ! i)) (map snd (scoring_pass ls)))"
    by (simp add: filter_map comp_def same_key_group_key key)
  also have "\<dots> = length (filter (\<lambda>l. group_key l = group_key (st ! i)) st)"
    unfolding snds using gkeys by (rule filter_key_length)
  finally show ?thesis using rank_of_bound[OF i] by (simp add: p)
qed

text \<open>
  Claim C6. A second scoring pass over the result of a scoring pass changes nothing,
  for every snapshot. For two lifters of one group (the same \<^verbatim>\<open>divisionId\<close>,
  \<^verbatim>\<open>sex\<close> and \<^verbatim>\<open>weightClass\<close>) that both have a place, the one with the larger total
  has the smaller place number, at equal totals the one with the smaller bodyweight
  has the smaller place number, and two different lifters never share a place. A
  place counts within the group: it is at least 1 and at most the number of lifters
  of the snapshot that have the lifter's group key.
\<close>

theorem placements_ordered_idempotent:
  "scoring_pass (scoring_pass ls) = scoring_pass ls \<and>
   (i < length ls \<and> j < length ls \<and>
    divisionId (snd (scoring_pass ls ! i)) = divisionId (snd (scoring_pass ls ! j)) \<and>
    sex (snd (scoring_pass ls ! i)) = sex (snd (scoring_pass ls ! j)) \<and>
    weightClass (snd (scoring_pass ls ! i)) = weightClass (snd (scoring_pass ls ! j)) \<and>
    place (snd (scoring_pass ls ! i)) = Some p \<and>
    place (snd (scoring_pass ls ! j)) = Some q \<longrightarrow>
      (total (snd (scoring_pass ls ! j)) < total (snd (scoring_pass ls ! i)) \<longrightarrow> p < q) \<and>
      (total (snd (scoring_pass ls ! i)) = total (snd (scoring_pass ls ! j)) \<and>
       bodyweight (snd (scoring_pass ls ! i)) < bodyweight (snd (scoring_pass ls ! j))
         \<longrightarrow> p < q) \<and>
      (i \<noteq> j \<longrightarrow> p \<noteq> q)) \<and>
   (i < length ls \<and> place (snd (scoring_pass ls ! i)) = Some p \<longrightarrow>
      1 \<le> p \<and>
      p \<le> length (filter (\<lambda>kl. same_key (snd kl) (snd (scoring_pass ls ! i)))
                    (scoring_pass ls)))"
proof -
  have idem: "scoring_pass (scoring_pass ls) = scoring_pass ls"
    by (rule scoring_pass_idem)
  have ordered: "i < length ls \<and> j < length ls \<and>
    divisionId (snd (scoring_pass ls ! i)) = divisionId (snd (scoring_pass ls ! j)) \<and>
    sex (snd (scoring_pass ls ! i)) = sex (snd (scoring_pass ls ! j)) \<and>
    weightClass (snd (scoring_pass ls ! i)) = weightClass (snd (scoring_pass ls ! j)) \<and>
    place (snd (scoring_pass ls ! i)) = Some p \<and>
    place (snd (scoring_pass ls ! j)) = Some q \<longrightarrow>
      (total (snd (scoring_pass ls ! j)) < total (snd (scoring_pass ls ! i)) \<longrightarrow> p < q) \<and>
      (total (snd (scoring_pass ls ! i)) = total (snd (scoring_pass ls ! j)) \<and>
       bodyweight (snd (scoring_pass ls ! i)) < bodyweight (snd (scoring_pass ls ! j))
         \<longrightarrow> p < q) \<and>
      (i \<noteq> j \<longrightarrow> p \<noteq> q)"
  proof (rule impI)
    assume "i < length ls \<and> j < length ls \<and>
      divisionId (snd (scoring_pass ls ! i)) = divisionId (snd (scoring_pass ls ! j)) \<and>
      sex (snd (scoring_pass ls ! i)) = sex (snd (scoring_pass ls ! j)) \<and>
      weightClass (snd (scoring_pass ls ! i)) = weightClass (snd (scoring_pass ls ! j)) \<and>
      place (snd (scoring_pass ls ! i)) = Some p \<and>
      place (snd (scoring_pass ls ! j)) = Some q"
    then show "(total (snd (scoring_pass ls ! j)) < total (snd (scoring_pass ls ! i))
          \<longrightarrow> p < q) \<and>
        (total (snd (scoring_pass ls ! i)) = total (snd (scoring_pass ls ! j)) \<and>
         bodyweight (snd (scoring_pass ls ! i)) < bodyweight (snd (scoring_pass ls ! j))
           \<longrightarrow> p < q) \<and>
        (i \<noteq> j \<longrightarrow> p \<noteq> q)"
      by (intro placements_in_group[OF _ _ refl refl]) simp_all
  qed
  have bounded: "i < length ls \<and> place (snd (scoring_pass ls ! i)) = Some p \<longrightarrow>
      1 \<le> p \<and>
      p \<le> length (filter (\<lambda>kl. same_key (snd kl) (snd (scoring_pass ls ! i)))
                    (scoring_pass ls))"
  proof (rule impI)
    assume "i < length ls \<and> place (snd (scoring_pass ls ! i)) = Some p"
    then show "1 \<le> p \<and>
      p \<le> length (filter (\<lambda>kl. same_key (snd kl) (snd (scoring_pass ls ! i)))
                    (scoring_pass ls))"
      by (intro place_within_group) simp_all
  qed
  show ?thesis by (intro conjI idem ordered bounded)
qed

lemma grouped_summary:
  "map summary (scoring_pass grouped_lifters) =
     [(''l1'', (Some ''d1'', ''MALE'', ''83''), 80, 105, 255, Some 3),
      (''l2'', (Some ''d1'', ''MALE'', ''83''), 82, 110, 300, Some 1),
      (''l3'', (Some ''d1'', ''MALE'', ''83''), 79, 105, 255, Some 2),
      (''l4'', (Some ''d1'', ''MALE'', ''83''), 81, 0, 0, None),
      (''l5'', (Some ''d1'', ''FEMALE'', ''63''), 60, 80, 80, Some 1)]"
  by code_simp

lemma grouped_group_sizes:
  "map (\<lambda>x. length (filter (\<lambda>kl. same_key (snd kl) (snd x)) (scoring_pass grouped_lifters)))
     (scoring_pass grouped_lifters) = [4, 4, 4, 4, 1]"
  by code_simp

lemma grouped_nth:
  assumes "n < 5"
  shows "summary (scoring_pass grouped_lifters ! n)
           = map summary (scoring_pass grouped_lifters) ! n"
    and "length (filter (\<lambda>kl. same_key (snd kl) (snd (scoring_pass grouped_lifters ! n)))
                   (scoring_pass grouped_lifters))
           = map (\<lambda>x. length (filter (\<lambda>kl. same_key (snd kl) (snd x))
                                  (scoring_pass grouped_lifters)))
               (scoring_pass grouped_lifters) ! n"
  using assms by (simp_all add: scoring_pass_length grouped_lifters_def example_lifters_def)

theorem placements_ordered_idempotent_witness:
  "scoring_pass (scoring_pass grouped_lifters) = scoring_pass grouped_lifters \<and>
   place (snd (scoring_pass grouped_lifters ! 2)) = Some 2 \<and>
   place (snd (scoring_pass grouped_lifters ! 0)) = Some 3 \<and>
   total (snd (scoring_pass grouped_lifters ! 2))
     = total (snd (scoring_pass grouped_lifters ! 0)) \<and>
   bodyweight (snd (scoring_pass grouped_lifters ! 2))
     < bodyweight (snd (scoring_pass grouped_lifters ! 0)) \<and>
   (2::nat) < 3 \<and>
   place (snd (scoring_pass grouped_lifters ! 4)) = Some 1 \<and>
   length (filter (\<lambda>kl. same_key (snd kl) (snd (scoring_pass grouped_lifters ! 4)))
             (scoring_pass grouped_lifters)) = 1"
proof -
  let ?a = "snd (scoring_pass grouped_lifters ! 2)"
  let ?b = "snd (scoring_pass grouped_lifters ! 0)"
  let ?c = "snd (scoring_pass grouped_lifters ! 4)"
  have len: "length grouped_lifters = 5"
    by (simp add: grouped_lifters_def example_lifters_def)
  have a: "divisionId ?a = Some ''d1''" "sex ?a = ''MALE''" "weightClass ?a = ''83''"
    "place ?a = Some 2" "total ?a = 255" "bodyweight ?a = 79"
    using grouped_nth(1)[of 2] unfolding grouped_summary by (simp_all add: summary_def)
  have b: "divisionId ?b = Some ''d1''" "sex ?b = ''MALE''" "weightClass ?b = ''83''"
    "place ?b = Some 3" "total ?b = 255" "bodyweight ?b = 80"
    using grouped_nth(1)[of 0] unfolding grouped_summary by (simp_all add: summary_def)
  have c: "place ?c = Some 1"
    using grouped_nth(1)[of 4] unfolding grouped_summary by (simp_all add: summary_def)
  have n: "length (filter (\<lambda>kl. same_key (snd kl) ?c) (scoring_pass grouped_lifters)) = 1"
    using grouped_nth(2)[of 4] unfolding grouped_group_sizes by simp
  from placements_ordered_idempotent[of grouped_lifters 2 0 2 3] a b len
  have "scoring_pass (scoring_pass grouped_lifters) = scoring_pass grouped_lifters"
    and "(2::nat) < 3"
    by simp_all
  with a b c n show ?thesis by simp
qed

section \<open>Properties of the update cycle and of the messages\<close>

lemma example_state_summary:
  "(map fst (lifters example_state), map fst (attempts example_state),
    map (\<lambda>kp. (fst kp, lights (snd kp))) (platforms example_state),
    lastUpdate example_state) =
   ([''l1''], [''a1'', ''a2'', ''a3'', ''a4''], [(''p1'', [False, True, False])],
    Some ''2025-10-05T12:00:00.000Z'')"
  by code_simp



text \<open>
  Claim C8. When the request fails (no response, a status that is not a success, a
  body that is not JSON) or the payload has no rows (it is \<^verbatim>\<open>null\<close>, not an object, or
  an object without rows), \<^verbatim>\<open>updateMeetData\<close> returns the snapshot it was given, every
  field as it was, and broadcasts nothing.
\<close>

theorem failed_fetch_keeps_snapshot:
  assumes "resp = Network_error \<or> (\<exists>n. resp = Status_not_ok n) \<or> resp = Invalid_json
           \<or> resp = Json_null \<or> resp = Json_scalar \<or> resp = Json_object None"
  shows "fst (updateMeetData rt configs resp now s) = s \<and>
         snd (updateMeetData rt configs resp now s) \<in> {No_meet_id, No_data}"
proof -
  from assms have "fetchData resp = None"
    by (auto simp: fetchData_def)
  then show ?thesis by (simp add: updateMeetData_def)
qed

theorem failed_fetch_keeps_snapshot_witness:
  "fst (updateMeetData example_runtime example_configs (Status_not_ok 500)
          ''2025-10-05T12:00:15.000Z'' example_state) = example_state \<and>
   snd (updateMeetData example_runtime example_configs (Status_not_ok 500)
          ''2025-10-05T12:00:15.000Z'' example_state) \<in> {No_meet_id, No_data} \<and>
   lastUpdate example_state = Some ''2025-10-05T12:00:00.000Z''"
proof -
  have "Status_not_ok 500 = Network_error \<or> (\<exists>n. Status_not_ok 500 = Status_not_ok n)
        \<or> Status_not_ok 500 = Invalid_json \<or> Status_not_ok 500 = Json_null
        \<or> Status_not_ok 500 = Json_scalar \<or> Status_not_ok 500 = Json_object None"
    by simp
  from failed_fetch_keeps_snapshot[OF this] example_state_summary show ?thesis by simp
qed

lemma attempts_loop_missing_doc:
  "None \<in> set rows \<Longrightarrow> fst (attempts_loop rt rows st) = Some TypeError"
proof (induction rows arbitrary: st)
  case Nil
  then show ?case by simp
next
  case (Cons r rows)
  show ?case
  proof (cases "attempt_step rt r st")
    case (Inl e)
    then show ?thesis by (cases e) simp
  next
    case (Inr st')
    have "r \<noteq> None"
    proof
      assume "r = None"
      then have "attempt_step rt r st = Inl TypeError" by (simp add: attempt_step_def)
      with Inr show False by simp
    qed
    with Cons.prems have "None \<in> set rows" by auto
    then show ?thesis using Inr Cons.IH by simp
  qed
qed

lemma update_missing_doc:
  assumes "truthy_str (meetId s)" and "None \<in> set rows"
  shows "snd (updateMeetData rt configs (Json_object (Some rows)) now s) = Raised TypeError"
proof -
  have f: "fetchData (Json_object (Some rows)) = Some rows" by (simp add: fetchData_def)
  show ?thesis
  proof (cases "processLifters rt configs rows (federation s) (processDivisions rows)")
    case (Inl e)
    then show ?thesis using assms(1) by (cases e) (simp add: updateMeetData_def f Let_def)
  next
    case (Inr ls)
    obtain e atts ls' where p: "processAttempts rt rows ls = (e, atts, ls')"
      by (cases "processAttempts rt rows ls")
    have "fst (processAttempts rt rows ls) = Some TypeError"
      unfolding processAttempts_def using assms(2) by (rule attempts_loop_missing_doc)
    with p have "e = Some TypeError" by simp
    then show ?thesis using assms(1) Inr p by (simp add: updateMeetData_def f Let_def)
  qed
qed

text \<open>
  Claim C9 fails on the code: a row without a document. The four projections before
  \<^verbatim>\<open>processAttempts\<close> skip it; \<^verbatim>\<open>processAttempts\<close> raises, the cycle ends with the
  exception, and the lifters of the snapshot have been replaced by then.
\<close>

theorem row_without_document_raises:
  "snd (updateMeetData example_runtime example_configs
          (Json_object (Some [Some lifter_doc, None])) ''2025-10-05T12:00:00.000Z'' configured)
     = Raised TypeError \<and>
   map fst (lifters (fst (updateMeetData example_runtime example_configs
          (Json_object (Some [Some lifter_doc, None])) ''2025-10-05T12:00:00.000Z'' configured)))
     = [''l1''] \<and>
   lifters configured = [] \<and>
   processDivisions [Some lifter_doc, None] = [] \<and>
   processPlatforms [Some lifter_doc, None] = [] \<and>
   processReferees [Some lifter_doc, None] = []"
  by code_simp

section \<open>Properties of the weight classes\<close>

lemma sort_by_numeric: "sort_by (\<lambda>a b. a - b) xs = sort (xs :: real list)"
  by (rule sort_by_sort_key) simp

lemma parse_classes_sorted: "sorted (parse_classes rt config s)"
  by (simp add: parse_classes_def Let_def sort_by_numeric)

lemma mapWeightClasses_sorted:
  "mapWeightClasses rt configs fed = Inr th \<Longrightarrow> sorted (MALE th) \<and> sorted (FEMALE th)"
  by (auto simp: mapWeightClasses_def parse_classes_sorted split: option.splits)

lemma first_class_sorted:
  "sorted ws \<Longrightarrow>
   first_class b ws =
     (if filter (\<lambda>w. b \<le> w) ws = [] then None
      else Some (Min (set (filter (\<lambda>w. b \<le> w) ws))))"
proof (induction ws)
  case Nil
  then show ?case by simp
next
  case (Cons w ws)
  show ?case
  proof (cases "b \<le> w")
    case True
    have "\<forall>x\<in>set ws. w \<le> x" using Cons.prems by simp
    then have "Min (insert w (set (filter (\<lambda>w. b \<le> w) ws))) = w"
      by (intro Min_eqI) auto
    with True show ?thesis by simp
  next
    case False
    moreover have "sorted ws" using Cons.prems by simp
    ultimately show ?thesis using Cons.IH by simp
  qed
qed

lemma sorted_last_Max: "sorted ws \<Longrightarrow> ws \<noteq> [] \<Longrightarrow> last ws = Max (set (ws :: real list))"
proof (induction ws)
  case Nil
  then show ?case by simp
next
  case (Cons w ws)
  show ?case
  proof (cases "ws = []")
    case True
    then show ?thesis by simp
  next
    case False
    have le: "\<forall>x\<in>set ws. w \<le> x" and s: "sorted ws" using Cons.prems by simp_all
    have "last (w # ws) = Max (set ws)" using False s Cons.IH by simp
    moreover have "w \<le> Max (set ws)"
    proof -
      from False obtain x where x: "x \<in> set ws" by (cases ws) auto
      then have "w \<le> x" using le by simp
      also have "x \<le> Max (set ws)" using x by simp
      finally show ?thesis .
    qed
    ultimately show ?thesis using False by (simp add: max_def)
  qed
qed

lemma class_of_sorted:
  assumes "sorted upper" and "upper \<noteq> []"
  shows "(case first_class b upper of
            Some w \<Rightarrow> number_toString rt w
          | None \<Rightarrow> number_toString rt (last upper) @ ''+'') = smallest_class rt b upper"
  using first_class_sorted[OF assms(1), of b] sorted_last_Max[OF assms]
  by (simp add: smallest_class_def Let_def)

lemma select_table_eq:
  "select_table th sx = (if toUpperCase sx = ''FEMALE'' then FEMALE th else MALE th)"
  by (simp add: select_table_def)

text \<open>
  The configuration of the example has no classes for women. For a woman of 60 kg the
  code answers \<^verbatim>\<open>"0"\<close>; the male table, which the claim says is used, gives \<^verbatim>\<open>"66"\<close>.
\<close>

theorem empty_table_is_not_replaced:
  "mapWeightClasses example_runtime example_configs (Some ''IPF'')
     = Inr \<lparr>MALE = [59, 66, 120, 120], FEMALE = []\<rparr> \<and>
   getWeightClass example_runtime \<lparr>MALE = [59, 66, 120, 120], FEMALE = []\<rparr>
     (Some ''FEMALE'') (Some 60) = ''0'' \<and>
   resolve_spec example_runtime \<lparr>MALE = [59, 66, 120, 120], FEMALE = []\<rparr>
     (Some ''FEMALE'') (Some 60) = ''66''"
  by code_simp

text \<open>
  Claim C4, amended. For the thresholds \<^verbatim>\<open>mapWeightClasses\<close> builds from any federation
  configuration, \<^verbatim>\<open>getWeightClass\<close> returns \<^verbatim>\<open>"0"\<close> when the bodyweight or the sex is
  absent (a bodyweight of 0 or \<^verbatim>\<open>NaN\<close> and an empty sex count as absent); otherwise it
  takes the female table when the sex in upper case is \<^verbatim>\<open>FEMALE\<close> and the male table for
  every other sex, returns \<^verbatim>\<open>"0"\<close> when that table is empty, and else returns the
  printed number of the smallest boundary of the table that is not below the
  bodyweight, or of the top boundary with \<^verbatim>\<open>+\<close> appended when the bodyweight exceeds
  every boundary.
\<close>

theorem getWeightClass_resolves:
  assumes "mapWeightClasses rt configs fed = Inr th"
  shows "getWeightClass rt th s bw = resolve_code rt th s bw"
proof (cases "truthy_num bw \<and> truthy_str s")
  case False
  then show ?thesis
    by (auto simp: getWeightClass_def resolve_code_def truthy_num_def truthy_str_def
        split: option.splits)
next
  case True
  then obtain sx b where s: "s = Some sx" "sx \<noteq> []" and bw: "bw = Some b" "b \<noteq> 0"
    by (auto simp: truthy_num_def truthy_str_def split: option.splits)
  define upper where "upper = (if toUpperCase sx = ''FEMALE'' then FEMALE th else MALE th)"
  have sorted: "sorted upper"
    using mapWeightClasses_sorted[OF assms] by (simp add: upper_def)
  have code: "getWeightClass rt th s bw =
      (if upper = [] then ''0''
       else case first_class b upper of
              Some w \<Rightarrow> number_toString rt w
            | None \<Rightarrow> number_toString rt (last upper) @ ''+'')"
  proof -
    have sel: "select_table th sx = upper" by (simp add: select_table_eq upper_def)
    show ?thesis using True by (simp add: getWeightClass_def s bw sel Let_def)
  qed
  have spec: "resolve_code rt th s bw =
      (if upper = [] then ''0'' else smallest_class rt b upper)"
    by (simp add: resolve_code_def s bw upper_def Let_def)
  show ?thesis
  proof (cases "upper = []")
    case True
    then show ?thesis by (simp add: code spec)
  next
    case False
    then show ?thesis using class_of_sorted[OF sorted False] by (simp add: code spec)
  qed
qed

theorem getWeightClass_resolves_witness:
  "mapWeightClasses example_runtime example_configs (Some ''IPF'')
     = Inr \<lparr>MALE = [59, 66, 120, 120], FEMALE = []\<rparr> \<and>
   getWeightClass example_runtime \<lparr>MALE = [59, 66, 120, 120], FEMALE = []\<rparr>
     (Some ''male'') (Some 60)
     = resolve_code example_runtime \<lparr>MALE = [59, 66, 120, 120], FEMALE = []\<rparr>
         (Some ''male'') (Some 60) \<and>
   resolve_code example_runtime \<lparr>MALE = [59, 66, 120, 120], FEMALE = []\<rparr>
     (Some ''male'') (Some 60) = ''66'' \<and>
   resolve_code example_runtime \<lparr>MALE = [59, 66, 120, 120], FEMALE = []\<rparr>
     (Some ''male'') (Some 130) = ''120+''"
proof -
  have m: "mapWeightClasses example_runtime example_configs (Some ''IPF'')
     = Inr \<lparr>MALE = [59, 66, 120, 120], FEMALE = []\<rparr>"
    by code_simp
  have r: "resolve_code example_runtime \<lparr>MALE = [59, 66, 120, 120], FEMALE = []\<rparr>
     (Some ''male'') (Some 60) = ''66''"
    "resolve_code example_runtime \<lparr>MALE = [59, 66, 120, 120], FEMALE = []\<rparr>
     (Some ''male'') (Some 130) = ''120+''"
    by code_simp+
  from getWeightClass_resolves[OF m] m r show ?thesis by simp
qed

section \<open>Properties of the attempt slots\<close>

lemma dict_set_lookup: "map_of (dict_set k v m) k = Some v"
  by (simp add: dict_set_def update_conv')

lemma get_set_slot: "1 \<le> n \<Longrightarrow> n \<le> 3 \<Longrightarrow> get_slot n (set_slot n v d) = Some v"
  by (simp add: get_slot_def set_slot_def)

lemma discipline_of_write_slot:
  "discipline_of k (write_slot k n v l) = set_slot n v (discipline_of k l)"
  by (cases k) (simp_all add: discipline_of_def write_slot_def)

lemma linked_slot_cases:
  assumes "linked_slot rt d ls = Some (lid, k, n)"
  obtains i lname an l where
    "doc_id d = Some i" "doc_lifterId d = Some lid" "doc_liftName d = Some lname"
    "doc_attemptNumber d = Some an"
    "i \<noteq> [] \<and> startsWith i ''a'' \<and> lid \<noteq> [] \<and> lname \<noteq> [] \<and> an \<noteq> []"
    "map_of ls lid = Some l" "parseInt rt an = Some n"
    "lifter_property l (liftType lname) = Lift_object k" "1 \<le> n" "n \<le> 3"
proof -
  from assms obtain i lid' lname an where
    f: "doc_id d = Some i" "doc_lifterId d = Some lid'" "doc_liftName d = Some lname"
      "doc_attemptNumber d = Some an"
    by (auto simp: linked_slot_def split: option.splits)
  from assms f have g: "i \<noteq> [] \<and> startsWith i ''a'' \<and> lid' \<noteq> [] \<and> lname \<noteq> [] \<and> an \<noteq> []"
    by (simp add: linked_slot_def split: if_splits)
  from assms f g obtain l n' where
    h: "map_of ls lid' = Some l" "parseInt rt an = Some n'"
    by (auto simp: linked_slot_def split: option.splits)
  from assms f g h obtain k' where p: "lifter_property l (liftType lname) = Lift_object k'"
    by (auto simp: linked_slot_def split: property.splits)
  from assms f g h p have "lid' = lid" "k' = k" "n' = n" "1 \<le> n'" "n' \<le> 3"
    by (simp_all add: linked_slot_def split: if_splits)
  with f g h p show ?thesis by (intro that[of i lname an l]) simp_all
qed

lemma linked_slot_written:
  assumes "linked_slot rt d ls = Some (lid, k, n)"
  shows "\<exists>atts' ls' l'. attempt_step rt (Some d) (atts, ls) = Inr (atts', ls') \<and>
           map_of ls' lid = Some l' \<and>
           get_slot n (discipline_of k l') = Some (slot_value d)"
proof -
  from assms obtain i lname an l where
    f: "doc_id d = Some i" "doc_lifterId d = Some lid" "doc_liftName d = Some lname"
      "doc_attemptNumber d = Some an"
    and g: "i \<noteq> [] \<and> startsWith i ''a'' \<and> lid \<noteq> [] \<and> lname \<noteq> [] \<and> an \<noteq> []"
    and h: "map_of ls lid = Some l" "parseInt rt an = Some n"
    and p: "lifter_property l (liftType lname) = Lift_object k"
    and n: "1 \<le> n" "n \<le> 3"
    by (rule linked_slot_cases)
  define l' where "l' = write_slot k n (slot_value d) l"
  have link: "link_attempt rt d lid lname an ls = Inr (dict_set lid l' ls)"
    using h p n by (simp add: link_attempt_def l'_def)
  obtain atts' where step: "attempt_step rt (Some d) (atts, ls) = Inr (atts', dict_set lid l' ls)"
    using f g link by (simp add: attempt_step_def)
  have "get_slot n (discipline_of k l') = Some (slot_value d)"
    using n by (simp add: l'_def discipline_of_write_slot get_set_slot)
  with step dict_set_lookup[of lid l' ls] show ?thesis by blast
qed

lemma slot_value_present:
  "doc_result d = Some r \<Longrightarrow>
   slot_value d = (if toLowerCase r = ''good'' then declared_weight d else - \<bar>declared_weight d\<bar>)"
  by (simp add: slot_value_def isSuccess_def)

lemma slot_value_pending: "doc_result d = None \<Longrightarrow> slot_value d = 0"
  by (simp add: slot_value_def isSuccess_def)

lemma lower_good: "toLowerCase ''good'' = ''good''"
  by code_simp

lemma lower_bad: "toLowerCase ''bad'' \<noteq> ''good''"
  by (simp add: toLowerCase_def)

lemma declared_weight_present: "doc_weight d = Some w \<Longrightarrow> declared_weight d = w"
  by (simp add: declared_weight_def or_zero_def)

lemma attempts_loop_append:
  "attempts_loop rt (rows @ [r]) st =
     (case attempts_loop rt rows st of
        (Some e, st') \<Rightarrow> (Some e, st')
      | (None, st') \<Rightarrow>
          (case attempt_step rt r st' of
             Inl e \<Rightarrow> (Some e, st')
           | Inr st'' \<Rightarrow> (None, st'')))"
proof (induction rows arbitrary: st)
  case Nil
  then show ?case by (simp split: sum.splits)
next
  case (Cons x rows)
  then show ?case by (cases "attempt_step rt x st") simp_all
qed

lemma processAttempts_last:
  assumes "processAttempts rt rows ls = (None, atts, ls1)"
    and "attempt_step rt r (atts, ls1) = Inr (atts', ls')"
  shows "processAttempts rt (rows @ [r]) ls = (None, atts', ls')"
  using assms by (simp add: processAttempts_def attempts_loop_append)

lemma processAttempts_none: "processAttempts rt [] ls = (None, [], ls)"
  by (simp add: processAttempts_def)

text \<open>
  Claim C5. When \<^verbatim>\<open>processAttempts\<close> has run over the rows before it without an
  exception, an attempt document linked to a slot of the lifters so far (its lifter
  exists, its lift is one of the three disciplines, its attempt number is 1, 2 or 3) is
  processed without an exception too, and after \<^verbatim>\<open>processAttempts\<close> over all these rows
  the slot holds: the declared weight when the result is \<^verbatim>\<open>good\<close>, minus the absolute
  value of the declared weight when the result is \<^verbatim>\<open>bad\<close>, and 0 when the result is
  absent, whatever the weight. The declared weight is the document's weight when it has
  one.
\<close>

theorem attempt_slot_encoding:
  assumes "processAttempts rt rows ls = (None, atts, ls1)"
    and "linked_slot rt d ls1 = Some (lid, k, n)"
  shows "\<exists>atts' ls' l'. processAttempts rt (rows @ [Some d]) ls = (None, atts', ls') \<and>
           map_of ls' lid = Some l' \<and>
           (doc_result d = Some ''good'' \<longrightarrow>
              get_slot n (discipline_of k l') = Some (declared_weight d)) \<and>
           (doc_result d = Some ''bad'' \<longrightarrow>
              get_slot n (discipline_of k l') = Some (- \<bar>declared_weight d\<bar>)) \<and>
           (doc_result d = None \<longrightarrow> get_slot n (discipline_of k l') = Some 0) \<and>
           (\<forall>w. doc_weight d = Some w \<longrightarrow> declared_weight d = w)"
proof -
  from linked_slot_written[OF assms(2), of atts] obtain atts' ls' l' where
    s: "attempt_step rt (Some d) (atts, ls1) = Inr (atts', ls')" "map_of ls' lid = Some l'"
      "get_slot n (discipline_of k l') = Some (slot_value d)"
    by blast
  have run: "processAttempts rt (rows @ [Some d]) ls = (None, atts', ls')"
    using assms(1) s(1) by (rule processAttempts_last)
  have "doc_result d = Some ''good'' \<longrightarrow> slot_value d = declared_weight d"
    using slot_value_present[of d "''good''"] lower_good by simp
  moreover have "doc_result d = Some ''bad'' \<longrightarrow> slot_value d = - \<bar>declared_weight d\<bar>"
    using slot_value_present[of d "''bad''"] lower_bad by simp
  moreover have "doc_result d = None \<longrightarrow> slot_value d = 0"
    by (simp add: slot_value_pending)
  moreover have "\<forall>w. doc_weight d = Some w \<longrightarrow> declared_weight d = w"
    by (simp add: declared_weight_present)
  ultimately show ?thesis using run s(2,3)
    by (intro exI[of _ atts'] exI[of _ ls'] exI[of _ l']) simp
qed

theorem attempt_slot_encoding_witness:
  "processAttempts example_runtime [] pending_lifters = (None, [], pending_lifters) \<and>
   linked_slot example_runtime (attempt_doc ''a2'' ''squat'' ''2'' 105 (Some ''bad''))
     pending_lifters = Some (''l1'', Squat, 2) \<and>
   (\<exists>atts' ls' l'.
      processAttempts example_runtime
        [Some (attempt_doc ''a2'' ''squat'' ''2'' 105 (Some ''bad''))] pending_lifters
        = (None, atts', ls') \<and>
      map_of ls' ''l1'' = Some l' \<and>
      get_slot 2 (discipline_of Squat l') = Some (- 105))"
proof -
  let ?d = "attempt_doc ''a2'' ''squat'' ''2'' 105 (Some ''bad'')"
  have h: "linked_slot example_runtime ?d pending_lifters = Some (''l1'', Squat, 2)"
    by code_simp
  have r: "doc_result ?d = Some ''bad''" and w: "doc_weight ?d = Some 105"
    by (simp_all add: attempt_doc_def)
  from attempt_slot_encoding[OF processAttempts_none h] obtain atts' ls' l' where
    "processAttempts example_runtime ([] @ [Some ?d]) pending_lifters = (None, atts', ls')"
    "map_of ls' ''l1'' = Some l'"
    "doc_result ?d = Some ''bad'' \<longrightarrow>
       get_slot 2 (discipline_of Squat l') = Some (- \<bar>declared_weight ?d\<bar>)"
    "\<forall>w. doc_weight ?d = Some w \<longrightarrow> declared_weight ?d = w"
    by blast
  with r w h processAttempts_none show ?thesis by auto
qed

text \<open>
  Claim C10. For a linked attempt whose result is present, after \<^verbatim>\<open>processAttempts\<close>
  the slot holds the declared weight when the result in lower case is \<^verbatim>\<open>good\<close> (so
  for \<^verbatim>\<open>Good\<close> and \<^verbatim>\<open>GOOD\<close> too) and minus the absolute value of the declared weight
  for every other result.
\<close>

theorem present_result_encoding:
  assumes "processAttempts rt rows ls = (None, atts, ls1)"
    and "linked_slot rt d ls1 = Some (lid, k, n)" and "doc_result d = Some r"
  shows "\<exists>atts' ls' l'. processAttempts rt (rows @ [Some d]) ls = (None, atts', ls') \<and>
           map_of ls' lid = Some l' \<and>
           get_slot n (discipline_of k l') =
             Some (if toLowerCase r = ''good'' then declared_weight d
                   else - \<bar>declared_weight d\<bar>)"
proof -
  from linked_slot_written[OF assms(2), of atts] obtain atts' ls' l' where
    s: "attempt_step rt (Some d) (atts, ls1) = Inr (atts', ls')" "map_of ls' lid = Some l'"
      "get_slot n (discipline_of k l') = Some (slot_value d)"
    by blast
  have "processAttempts rt (rows @ [Some d]) ls = (None, atts', ls')"
    using assms(1) s(1) by (rule processAttempts_last)
  with s(2,3) slot_value_present[OF assms(3)] show ?thesis by auto
qed

theorem present_result_encoding_witness:
  "linked_slot example_runtime (attempt_doc ''a4'' ''dead'' ''1'' 150 (Some ''GOOD''))
     pending_lifters = Some (''l1'', Deadlift, 1) \<and>
   toLowerCase ''GOOD'' = ''good'' \<and>
   (\<exists>atts' ls' l'.
      processAttempts example_runtime
        [Some (attempt_doc ''a4'' ''dead'' ''1'' 150 (Some ''GOOD''))] pending_lifters
        = (None, atts', ls') \<and>
      map_of ls' ''l1'' = Some l' \<and>
      get_slot 1 (discipline_of Deadlift l') = Some 150) \<and>
   linked_slot example_runtime (attempt_doc ''a5'' ''Bench'' ''3'' 60 (Some ''no lift''))
     pending_lifters = Some (''l1'', Bench, 3) \<and>
   toLowerCase ''no lift'' \<noteq> ''good'' \<and>
   (\<exists>atts' ls' l'.
      processAttempts example_runtime
        [Some (attempt_doc ''a5'' ''Bench'' ''3'' 60 (Some ''no lift''))] pending_lifters
        = (None, atts', ls') \<and>
      map_of ls' ''l1'' = Some l' \<and>
      get_slot 3 (discipline_of Bench l') = Some (- 60))"
proof -
  let ?d = "attempt_doc ''a4'' ''dead'' ''1'' 150 (Some ''GOOD'')"
  let ?e = "attempt_doc ''a5'' ''Bench'' ''3'' 60 (Some ''no lift'')"
  have h: "linked_slot example_runtime ?d pending_lifters = Some (''l1'', Deadlift, 1)"
    by code_simp
  have g: "linked_slot example_runtime ?e pending_lifters = Some (''l1'', Bench, 3)"
    by code_simp
  have r: "doc_result ?d = Some ''GOOD''" "doc_result ?e = Some ''no lift''"
    by (simp_all add: attempt_doc_def)
  have w: "declared_weight ?d = 150" "declared_weight ?e = 60"
    by (simp_all add: attempt_doc_def declared_weight_def or_zero_def)
  have low: "toLowerCase ''GOOD'' = ''good''" by code_simp
  have nol: "toLowerCase ''no lift'' \<noteq> ''good''" by (simp add: toLowerCase_def)
  from present_result_encoding[OF processAttempts_none h r(1)]
    present_result_encoding[OF processAttempts_none g r(2)]
    h g low nol w
  show ?thesis by simp
qed

section \<open>Properties of the referee lights\<close>

lemma insert_by_mset: "mset (insert_by c x ys) = add_mset x (mset ys)"
  by (induction ys) simp_all

lemma sort_by_mset: "mset (sort_by c xs) = mset xs"
  by (induction xs) (simp_all add: sort_by_def insert_by_mset)

lemma sort_by_length: "length (sort_by c xs) = length xs"
  using sort_by_mset[of c xs] by (metis size_mset)

lemma insert_by_set: "set (insert_by c x ys) = insert x (set ys)"
  using insert_by_mset[of c x ys] by (metis set_mset_add_mset_insert set_mset_mset)

lemma insert_by_sorted:
  assumes "consistent c" and "sorted_wrt (\<lambda>a b. c a b \<le> 0) ys"
  shows "sorted_wrt (\<lambda>a b. c a b \<le> 0) (insert_by c x ys)"
  using assms(2)
proof (induction ys)
  case Nil
  then show ?case by simp
next
  case (Cons y ys)
  have total: "\<And>a b. c a b \<le> 0 \<or> c b a \<le> 0"
    and trans: "\<And>a b d. c a b \<le> 0 \<Longrightarrow> c b d \<le> 0 \<Longrightarrow> c a d \<le> 0"
    using assms(1) unfolding consistent_def by blast+
  have after: "\<forall>z\<in>set ys. c y z \<le> 0" and rest: "sorted_wrt (\<lambda>a b. c a b \<le> 0) ys"
    using Cons.prems by simp_all
  show ?case
  proof (cases "c x y \<le> 0")
    case True
    then have "\<forall>z\<in>set ys. c x z \<le> 0" using after trans by blast
    with True Cons.prems show ?thesis by simp
  next
    case False
    then have "c y x \<le> 0" using total[of x y] by simp
    with False after rest Cons.IH show ?thesis by (simp add: insert_by_set)
  qed
qed

lemma sort_by_sorted: "consistent c \<Longrightarrow> sorted_wrt (\<lambda>a b. c a b \<le> 0) (sort_by c xs)"
proof (induction xs)
  case Nil
  then show ?case by (simp add: sort_by_def)
next
  case (Cons x xs)
  then have "sorted_wrt (\<lambda>a b. c a b \<le> 0) (insert_by c x (sort_by c xs))"
    by (intro insert_by_sorted) simp_all
  then show ?case by (simp add: sort_by_def)
qed

lemma consistent_on_position:
  "consistent c \<Longrightarrow> consistent (\<lambda>a b. c (position a) (position b))"
  unfolding consistent_def by blast

lemma platformReferees_lights_update:
  "platformReferees rt refs (p\<lparr>lights := v\<rparr>) = platformReferees rt refs p"
  by (simp add: platformReferees_def)

text \<open>
  Claim C7. After \<^verbatim>\<open>processRefereeLights\<close> the light vector of every platform is the
  list of \<^verbatim>\<open>decision === "good"\<close> over the platform's referees in the order the sort
  on the position label leaves them: the sorted list holds exactly the referees
  recorded for the platform, so the vector has as many elements as there are such
  referees, and it is ordered by \<^verbatim>\<open>localeCompare\<close> of the positions whenever
  \<^verbatim>\<open>localeCompare\<close> orders the labels.
\<close>

theorem referee_lights:
  assumes "(k, p) \<in> set (processRefereeLights rt plats refs)"
  shows "lights p = map (\<lambda>r. decision r = Some ''good'') (platformReferees rt refs p) \<and>
         mset (platformReferees rt refs p)
           = mset (filter (\<lambda>r. platformId r = platform_id p) (map snd refs)) \<and>
         length (lights p)
           = length (filter (\<lambda>r. platformId r = platform_id p) (map snd refs)) \<and>
         (consistent (localeCompare rt) \<longrightarrow>
            sorted_wrt (\<lambda>a b. localeCompare rt (position a) (position b) \<le> 0)
              (platformReferees rt refs p))"
proof -
  from assms obtain p0 where
    p: "p = p0\<lparr>lights := map (\<lambda>r. decision r = Some ''good'') (platformReferees rt refs p0)\<rparr>"
    by (auto simp: processRefereeLights_def)
  have same: "platformReferees rt refs p = platformReferees rt refs p0"
    unfolding p by (rule platformReferees_lights_update)
  have l: "lights p = map (\<lambda>r. decision r = Some ''good'') (platformReferees rt refs p)"
    unfolding same by (simp add: p)
  have m: "mset (platformReferees rt refs p)
      = mset (filter (\<lambda>r. platformId r = platform_id p) (map snd refs))"
    unfolding platformReferees_def by (rule sort_by_mset)
  have n: "length (lights p)
      = length (filter (\<lambda>r. platformId r = platform_id p) (map snd refs))"
    unfolding l using m by (metis length_map size_mset)
  have s: "consistent (localeCompare rt) \<longrightarrow>
      sorted_wrt (\<lambda>a b. localeCompare rt (position a) (position b) \<le> 0)
        (platformReferees rt refs p)"
    unfolding platformReferees_def
    using sort_by_sorted[OF consistent_on_position, of "localeCompare rt"] by blast
  from l m n s show ?thesis by blast
qed

lemma example_runtime_consistent: "consistent (localeCompare example_runtime)"
  by (auto simp: consistent_def example_runtime_def)

lemma example_lights:
  "map (\<lambda>kp. (fst kp, lights (snd kp), map position
                 (platformReferees example_runtime (processReferees example_rows) (snd kp))))
     (processRefereeLights example_runtime (processPlatforms example_rows)
        (processReferees example_rows))
   = [(''p1'', [False, True, False], [''head'', ''left'', ''right''])]"
  by code_simp

theorem referee_lights_witness:
  "(\<exists>p. (''p1'', p) \<in> set (processRefereeLights example_runtime
             (processPlatforms example_rows) (processReferees example_rows)) \<and>
        lights p = [False, True, False] \<and>
        lights p = map (\<lambda>r. decision r = Some ''good'')
                     (platformReferees example_runtime (processReferees example_rows) p) \<and>
        map position (platformReferees example_runtime (processReferees example_rows) p)
          = [''head'', ''left'', ''right''] \<and>
        sorted_wrt (\<lambda>a b. localeCompare example_runtime (position a) (position b) \<le> 0)
          (platformReferees example_runtime (processReferees example_rows) p))"
proof -
  let ?ps = "processRefereeLights example_runtime (processPlatforms example_rows)
               (processReferees example_rows)"
  from example_lights obtain kp where kp: "?ps = [kp]"
    by (cases ?ps) auto
  obtain k p where kp': "kp = (k, p)" by (cases kp)
  from example_lights have v: "k = ''p1''" "lights p = [False, True, False]"
    "map position (platformReferees example_runtime (processReferees example_rows) p)
       = [''head'', ''left'', ''right'']"
    unfolding kp kp' by simp_all
  have mem: "(''p1'', p) \<in> set ?ps" by (simp add: kp kp' v(1))
  have c: "lights p = map (\<lambda>r. decision r = Some ''good'')
      (platformReferees example_runtime (processReferees example_rows) p)"
    using referee_lights[OF mem] by blast
  have s: "sorted_wrt (\<lambda>a b. localeCompare example_runtime (position a) (position b) \<le> 0)
      (platformReferees example_runtime (processReferees example_rows) p)"
    using referee_lights[OF mem] example_runtime_consistent by blast
  show ?thesis by (rule exI[of _ p]) (intro conjI mem v(2) c v(3) s)
qed

end
